theory Spec2Isabelle
  imports Complex_Main "HOL-Library.Sublist"
begin

section \<open>Python strings\<close>

text \<open>
  A Python \<open>str\<close> is modelled as a \<open>string\<close>. Each \<open>char\<close> stands for the Unicode
  code point with the same number, so the model covers the strings whose code points lie
  in 0..255. \<open>s.startswith(p)\<close> is \<open>prefix p s\<close>, \<open>s == t\<close> is equality of lists and
  \<open>a + b\<close> (also inside an f-string) is \<open>a @ b\<close>.
\<close>

definition startswith :: "string \<Rightarrow> string \<Rightarrow> bool" where
  "startswith s p = prefix p s"

text \<open>\<open>sub in s\<close>: \<open>sub\<close> occurs in \<open>s\<close> as a contiguous substring.\<close>

fun contains :: "string \<Rightarrow> string \<Rightarrow> bool" where
  "contains sub [] = (sub = [])"
| "contains sub (c # cs) = (prefix sub (c # cs) \<or> contains sub cs)"

text \<open>
  \<open>s.split(sep)\<close> for a separator of one character. The result is never empty:
  \<open>"".split("/")\<close> is \<open>[""]\<close>, so \<open>s.split(sep)[-1]\<close> is \<open>last\<close> of it.
\<close>

fun py_split :: "char \<Rightarrow> string \<Rightarrow> string list" where
  "py_split sep [] = [[]]"
| "py_split sep (c # cs) =
     (if c = sep then [] # py_split sep cs
      else (case py_split sep cs of
              [] \<Rightarrow> [[c]]
            | w # ws \<Rightarrow> (c # w) # ws))"

text \<open>\<open>s.replace(old, new, 1)\<close>: the leftmost occurrence of \<open>old\<close> is replaced.\<close>

fun replace_first :: "string \<Rightarrow> string \<Rightarrow> string \<Rightarrow> string" where
  "replace_first old new [] = (if old = [] then new else [])"
| "replace_first old new (c # cs) =
     (if prefix old (c # cs) then new @ drop (length old) (c # cs)
      else c # replace_first old new cs)"

text \<open>
  \<open>c.isspace()\<close> on the code points below 256: tab, line feed, vertical tab, form feed,
  carriage return, the separators 0x1C..0x1F, space, NEL (0x85) and the no-break space
  (0xA0).
\<close>

definition isspace :: "char \<Rightarrow> bool" where
  "isspace c = (of_char c \<in> {9, 10, 11, 12, 13, 28, 29, 30, 31, 32, 133, 160 :: nat})"

definition py_strip :: "string \<Rightarrow> string" where
  "py_strip s = rev (dropWhile isspace (rev (dropWhile isspace s)))"

definition py_rstrip :: "string \<Rightarrow> string \<Rightarrow> string" where
  "py_rstrip chars s = rev (dropWhile (\<lambda>c. c \<in> set chars) (rev s))"

text \<open>
  \<open>c.isdecimal()\<close> holds of \<open>0\<close>..\<open>9\<close> only; \<open>c.isdigit()\<close> holds also of the superscript
  digits (0xB2, 0xB3 and 0xB9), which \<open>int()\<close> does not read. \<open>s.isdigit()\<close> asks for a
  non-empty string of such characters.
\<close>

definition isdecimal_char :: "char \<Rightarrow> bool" where
  "isdecimal_char c = (48 \<le> (of_char c :: nat) \<and> (of_char c :: nat) \<le> 57)"

definition isdigit_char :: "char \<Rightarrow> bool" where
  "isdigit_char c = (isdecimal_char c \<or> of_char c \<in> {178, 179, 185 :: nat})"

definition isdigit :: "string \<Rightarrow> bool" where
  "isdigit s = (s \<noteq> [] \<and> list_all isdigit_char s)"

datatype py_error = ValueError | CancelledError

definition digit_value :: "char \<Rightarrow> int" where
  "digit_value c = int (of_char c) - 48"

text \<open>
  \<open>int(s)\<close> on the strings for which \<open>s.isdigit()\<close> holds, the only ones the source
  converts: the decimal value when every character is a decimal digit, \<open>ValueError\<close>
  otherwise. Python's integers are unbounded; the interpreter's configurable limit on
  the length of a decimal string is not modelled.
\<close>

definition py_int :: "string \<Rightarrow> py_error + int" where
  "py_int s =
     (if s \<noteq> [] \<and> list_all isdecimal_char s
      then Inr (foldl (\<lambda>acc c. 10 * acc + digit_value c) 0 s)
      else Inl ValueError)"

text \<open>
  \<open>c.lower()\<close> below 256: the letters \<open>A\<close>..\<open>Z\<close> and 0xC0..0xDE (but the
  multiplication sign 0xD7) move up by 32.
\<close>

definition lower_char :: "char \<Rightarrow> char" where
  "lower_char c =
     (let n = (of_char c :: nat) in
      if (65 \<le> n \<and> n \<le> 90) \<or> (192 \<le> n \<and> n \<le> 222 \<and> n \<noteq> 215)
      then char_of (n + 32) else c)"

definition py_lower :: "string \<Rightarrow> string" where
  "py_lower s = map lower_char s"

section \<open>const.py\<close>

definition SENSOR_TYPE_ZONE_INPUT :: string where "SENSOR_TYPE_ZONE_INPUT = ''zone_input''"
definition SENSOR_TYPE_OUTPUT :: string where "SENSOR_TYPE_OUTPUT = ''output''"
definition SENSOR_TYPE_TEMPERATURE :: string where "SENSOR_TYPE_TEMPERATURE = ''temperature''"
definition SENSOR_TYPE_VKP_LINE :: string where "SENSOR_TYPE_VKP_LINE = ''vkp_line''"
definition SENSOR_TYPE_VERSION :: string where "SENSOR_TYPE_VERSION = ''version''"

definition TOPIC_PRIO_INPUTS :: string where "TOPIC_PRIO_INPUTS = ''prio/inputs/read''"
definition TOPIC_VRIO_INPUTS :: string where "TOPIC_VRIO_INPUTS = ''vrio/inputs/read''"
definition TOPIC_PRIO_OUTPUTS :: string where "TOPIC_PRIO_OUTPUTS = ''prio/outputs''"
definition TOPIC_VRIO_OUTPUTS :: string where "TOPIC_VRIO_OUTPUTS = ''vrio/outputs''"
definition TOPIC_TEMPERATURE :: string where "TOPIC_TEMPERATURE = ''temperature''"
definition TOPIC_VKP_LINE1 :: string where "TOPIC_VKP_LINE1 = ''vkp/display/line1''"
definition TOPIC_VKP_LINE2 :: string where "TOPIC_VKP_LINE2 = ''vkp/display/line2''"
definition TOPIC_VERSION :: string where "TOPIC_VERSION = ''version''"

definition PAYLOAD_OPEN :: string where "PAYLOAD_OPEN = ''OPEN''"
definition PAYLOAD_CLOSED :: string where "PAYLOAD_CLOSED = ''CLOSED''"

section \<open>config\_flow.py\<close>

subsection \<open>Default device class and default name\<close>

text \<open>
  \<open>get_default_device_class(zone_id, topic)\<close>. The conversion \<open>int(zone_id)\<close> runs when
  \<open>zone_id.isdigit()\<close> holds and can raise \<open>ValueError\<close>; the error is the \<open>Inl\<close> branch.
  The source returns the string \<open>"None"\<close> for no device class.
\<close>

definition get_default_device_class :: "string \<Rightarrow> string \<Rightarrow> py_error + string" where
  "get_default_device_class zid msg_topic =
     (case (if isdigit zid then py_int zid else Inr 0) of
        Inl err \<Rightarrow> Inl err
      | Inr zone_num \<Rightarrow>
          (let last_digit = zone_num mod 10 in
           Inr (if last_digit \<in> {1, 7} then ''door''
                else if last_digit \<in> {2, 8} then ''motion''
                else if last_digit \<in> {4, 6} then ''smoke''
                else if last_digit \<in> {3, 5} then ''safety''
                else ''None'')))"

definition get_default_sensor_name :: "string \<Rightarrow> string \<Rightarrow> string" where
  "get_default_sensor_name stype sensor_id =
     (if stype = SENSOR_TYPE_ZONE_INPUT then ''Alarm - Zone '' @ sensor_id
      else if stype = SENSOR_TYPE_OUTPUT then ''Alarm - Output '' @ sensor_id
      else if stype = SENSOR_TYPE_TEMPERATURE then ''Temperature Sensor''
      else if stype = SENSOR_TYPE_VKP_LINE then
        (if contains ''line1'' (py_lower sensor_id) then ''Keypad Line 1''
         else ''Keypad Line 2'')
      else if stype = SENSOR_TYPE_VERSION then ''Module Version''
      else ''Sensor '' @ sensor_id)"

subsection \<open>The sensor-discovery callback\<close>

text \<open>
  One entry of \<open>self._discovered_sensors\<close>: the dictionary the callback stores, with
  its keys as fields. The key \<open>is_prio\<close> is present for zone inputs and outputs only.
\<close>

record sensor_config =
  sensor_type :: string
  zone_id :: string
  name :: string
  device_class :: string
  enabled :: bool
  topic :: string
  is_prio :: "bool option"
  auto_enabled :: bool

text \<open>
  \<open>message_received\<close> of \<open>async_step_discover\<close>, with the two attributes it reads and
  writes as arguments: \<open>self._module_path\<close> and \<open>self._discovered_sensors\<close>. The result
  is the updated dictionary, or the exception that left the callback.
\<close>

definition discover_message_received ::
  "string \<Rightarrow> (string \<rightharpoonup> sensor_config) \<Rightarrow> string \<Rightarrow> py_error + (string \<rightharpoonup> sensor_config)"
where
  "discover_message_received module_path discovered msg_topic =
     (let relative_topic = replace_first (module_path @ ''/'') [] msg_topic;
          sensor_key = msg_topic
      in
      if startswith relative_topic TOPIC_PRIO_INPUTS
         \<or> startswith relative_topic TOPIC_VRIO_INPUTS then
        (let zid = last (py_split CHR ''/'' relative_topic) in
         case get_default_device_class zid msg_topic of
           Inl err \<Rightarrow> Inl err
         | Inr dc \<Rightarrow>
             Inr (discovered(sensor_key \<mapsto>
               \<lparr>sensor_type = SENSOR_TYPE_ZONE_INPUT,
                zone_id = zid,
                name = get_default_sensor_name SENSOR_TYPE_ZONE_INPUT zid,
                device_class = dc,
                enabled = True,
                topic = msg_topic,
                is_prio = Some (contains TOPIC_PRIO_INPUTS relative_topic),
                auto_enabled = False\<rparr>)))
      else if startswith relative_topic TOPIC_PRIO_OUTPUTS
              \<or> startswith relative_topic TOPIC_VRIO_OUTPUTS then
        (let output_id = last (py_split CHR ''/'' relative_topic) in
         Inr (discovered(sensor_key \<mapsto>
           \<lparr>sensor_type = SENSOR_TYPE_OUTPUT,
            zone_id = output_id,
            name = get_default_sensor_name SENSOR_TYPE_OUTPUT output_id,
            device_class = ''None'',
            enabled = True,
            topic = msg_topic,
            is_prio = Some (contains TOPIC_PRIO_OUTPUTS relative_topic),
            auto_enabled = False\<rparr>)))
      else if relative_topic = TOPIC_TEMPERATURE then
        Inr (discovered(sensor_key \<mapsto>
          \<lparr>sensor_type = SENSOR_TYPE_TEMPERATURE,
           zone_id = ''temperature'',
           name = get_default_sensor_name SENSOR_TYPE_TEMPERATURE [],
           device_class = ''temperature'',
           enabled = True,
           topic = msg_topic,
           is_prio = None,
           auto_enabled = True\<rparr>))
      else if relative_topic \<in> {TOPIC_VKP_LINE1, TOPIC_VKP_LINE2} then
        (let line_id = (if contains ''line1'' relative_topic then ''line1'' else ''line2'') in
         Inr (discovered(sensor_key \<mapsto>
           \<lparr>sensor_type = SENSOR_TYPE_VKP_LINE,
            zone_id = line_id,
            name = get_default_sensor_name SENSOR_TYPE_VKP_LINE line_id,
            device_class = ''None'',
            enabled = True,
            topic = msg_topic,
            is_prio = None,
            auto_enabled = True\<rparr>)))
      else if relative_topic = TOPIC_VERSION then
        Inr (discovered(sensor_key \<mapsto>
          \<lparr>sensor_type = SENSOR_TYPE_VERSION,
           zone_id = ''version'',
           name = get_default_sensor_name SENSOR_TYPE_VERSION [],
           device_class = ''None'',
           enabled = True,
           topic = msg_topic,
           is_prio = None,
           auto_enabled = True\<rparr>))
      else Inr discovered)"

text \<open>\<open>topics_to_subscribe\<close> of \<open>async_step_discover\<close>.\<close>

definition topics_to_subscribe :: "string \<Rightarrow> bool \<Rightarrow> string list" where
  "topics_to_subscribe module_path enable_outputs =
     [module_path @ ''/'' @ TOPIC_PRIO_INPUTS @ ''/#'',
      module_path @ ''/'' @ TOPIC_VRIO_INPUTS @ ''/#'',
      module_path @ ''/'' @ TOPIC_TEMPERATURE,
      module_path @ ''/'' @ TOPIC_VKP_LINE1,
      module_path @ ''/'' @ TOPIC_VKP_LINE2,
      module_path @ ''/'' @ TOPIC_VERSION]
     @ (if enable_outputs
        then [module_path @ ''/'' @ TOPIC_PRIO_OUTPUTS @ ''/#'',
              module_path @ ''/'' @ TOPIC_VRIO_OUTPUTS @ ''/#'']
        else [])"

subsection \<open>The host's MQTT client\<close>

text \<open>
  Modelled from the spec: the publish/subscribe channel is the host's, not this
  repository's. The spec gives it \<open>+\<close> as the single-level and \<open>#\<close> as the multi-level
  wildcard, "matching common MQTT semantics", and a callback is called only for the
  messages whose topic matches the filter it was subscribed with. Filter and topic are
  compared level by level: a level \<open>+\<close> matches any one level, a final level \<open>#\<close>
  matches all remaining levels (also none), any other level matches itself. The flag
  is false only at the first level of a topic that starts with \<open>$\<close>, where no wildcard
  matches.
\<close>

fun match_levels :: "bool \<Rightarrow> string list \<Rightarrow> string list \<Rightarrow> bool" where
  "match_levels wild [] [] = True"
| "match_levels wild [] (t # ts) = False"
| "match_levels wild (p # ps) [] = (p = ''#'' \<and> ps = [] \<and> wild)"
| "match_levels wild (p # ps) (t # ts) =
     ((p = ''#'' \<and> ps = [] \<and> wild)
      \<or> ((p = t \<or> (p = ''+'' \<and> wild)) \<and> match_levels True ps ts))"

definition mqtt_matches :: "string \<Rightarrow> string \<Rightarrow> bool" where
  "mqtt_matches pattern msg_topic =
     match_levels (\<not> startswith msg_topic ''$'')
       (py_split CHR ''/'' pattern) (py_split CHR ''/'' msg_topic)"

definition delivered :: "string list \<Rightarrow> string \<Rightarrow> bool" where
  "delivered patterns msg_topic = list_ex (\<lambda>p. mqtt_matches p msg_topic) patterns"

text \<open>
  The spec's \<open>classify(moduleBase, fullTopic, isOutputsEnabled)\<close> on the code: the
  session subscribes the callback to \<open>topics_to_subscribe\<close>, so a message reaches the
  callback when its topic matches one of these filters, and the descriptor is what the
  callback then stores under the topic. \<open>Inr None\<close> is "no descriptor".
\<close>

definition classify :: "string \<Rightarrow> string \<Rightarrow> bool \<Rightarrow> py_error + sensor_config option" where
  "classify module_base full_topic outputs_enabled =
     (if delivered (topics_to_subscribe module_base outputs_enabled) full_topic
      then (case discover_message_received module_base Map.empty full_topic of
              Inl err \<Rightarrow> Inl err
            | Inr found \<Rightarrow> Inr (found full_topic))
      else Inr None)"

text \<open>
  The messages of a listen window, in order of arrival. The host logs an exception
  that leaves a callback and goes on, so a failing call changes nothing.
\<close>

fun deliver_all ::
  "string \<Rightarrow> string list \<Rightarrow> (string \<rightharpoonup> sensor_config) \<Rightarrow> string list \<Rightarrow> (string \<rightharpoonup> sensor_config)"
where
  "deliver_all module_path patterns discovered [] = discovered"
| "deliver_all module_path patterns discovered (m # ms) =
     deliver_all module_path patterns
       (if delivered patterns m
        then (case discover_message_received module_path discovered m of
                Inl err \<Rightarrow> discovered
              | Inr found \<Rightarrow> found)
        else discovered)
       ms"

subsection \<open>Manual entry of the module path\<close>

text \<open>The character class \<open>[a-fA-F0-9]\<close>.\<close>

definition is_hex_char :: "char \<Rightarrow> bool" where
  "is_hex_char c = (c \<in> set ''abcdefABCDEF0123456789'')"

text \<open>
  \<open>re.match(r"^selfmon/vmod\.[a-fA-F0-9]+$", s)\<close> as a truth value. In Python, \<open>$\<close>
  matches at the end of the string and also just before a line feed that ends the
  string.
\<close>

definition re_match_module_path :: "string \<Rightarrow> bool" where
  "re_match_module_path s =
     (startswith s ''selfmon/vmod.''
      \<and> (let rest = drop (length ''selfmon/vmod.'') s;
              hex = takeWhile is_hex_char rest;
              tail = dropWhile is_hex_char rest
          in hex \<noteq> [] \<and> (tail = [] \<or> tail = [CHR 0x0A])))"

text \<open>
  What a step returns to the host: a form (its step id and its errors), or the abort
  that \<open>_abort_if_unique_id_configured\<close> raises.
\<close>

datatype flow_result = ShowForm string "(string \<times> string) list" | AbortFlow string

text \<open>
  \<open>async_step_manual_entry\<close>. \<open>configured\<close> are the unique ids of the entries the host
  already has, \<open>self_module_path\<close> is \<open>self._module_path\<close> before the call and
  \<open>user_input\<close> the text of the form's field (\<open>None\<close> when the form is first shown). The
  result is \<open>self._module_path\<close> after the call and what the step returns; on success
  that is the form of \<open>async_step_output_config\<close>. The flow's unique id, which the step
  sets to the trimmed text before it looks for a configured entry, is not part of the
  result.
\<close>

definition async_step_manual_entry ::
  "string set \<Rightarrow> string \<Rightarrow> string option \<Rightarrow> string \<times> flow_result"
where
  "async_step_manual_entry configured self_module_path user_input =
     (case user_input of
        None \<Rightarrow> (self_module_path, ShowForm ''manual_entry'' [])
      | Some entered \<Rightarrow>
          (let module_path = py_rstrip ''/'' (py_strip entered) in
           if \<not> re_match_module_path module_path
           then (self_module_path, ShowForm ''manual_entry'' [(''base'', ''invalid_path'')])
           else if module_path \<in> configured
           then (self_module_path, AbortFlow ''already_configured'')
           else (module_path, ShowForm ''output_config'' [])))"

subsection \<open>Subscribing, waiting, unsubscribing\<close>

text \<open>
  The host's MQTT client keeps the active subscriptions, each under the handle its
  unsubscribe function stands for. \<open>await mqtt.async_subscribe(...)\<close> ends in one of
  three ways: it returns the unsubscribe function, it raises an \<open>Exception\<close> (caught by
  the loop's \<open>except Exception\<close>), or the task is cancelled while it waits
  (\<open>CancelledError\<close> is no \<open>Exception\<close> and leaves the step). \<open>await asyncio.sleep(...)\<close>
  returns when the window has elapsed, or raises \<open>CancelledError\<close> when the task is
  cancelled in the window.
\<close>

datatype sub_outcome = Subscribed | SubscribeFailed | SubscribeCancelled

datatype sleep_outcome = Elapsed | SleepCancelled

record broker =
  subscriptions :: "(nat \<times> string) list"
  next_handle :: nat

definition broker_init :: broker where
  "broker_init = \<lparr>subscriptions = [], next_handle = 0\<rparr>"

definition async_subscribe :: "broker \<Rightarrow> string \<Rightarrow> broker \<times> nat" where
  "async_subscribe br pattern =
     (br\<lparr>subscriptions := subscriptions br @ [(next_handle br, pattern)],
         next_handle := Suc (next_handle br)\<rparr>,
      next_handle br)"

definition unsub :: "nat \<Rightarrow> broker \<Rightarrow> broker" where
  "unsub h br = br\<lparr>subscriptions := filter (\<lambda>(h', p). h' \<noteq> h) (subscriptions br)\<rparr>"

text \<open>Every handle in use was given out before: the client never reuses one.\<close>

definition broker_wf :: "broker \<Rightarrow> bool" where
  "broker_wf br = list_all (\<lambda>(h, p). h < next_handle br) (subscriptions br)"

text \<open>
  The loop \<open>for pattern in ...: try: unsub = await mqtt.async_subscribe(...);
  unsubscribes.append(unsub) except Exception: log\<close>.
\<close>

fun subscribe_loop ::
  "(string \<Rightarrow> sub_outcome) \<Rightarrow> string list \<Rightarrow> broker \<Rightarrow> nat list \<Rightarrow> broker \<times> (py_error + nat list)"
where
  "subscribe_loop env [] br unsubscribes = (br, Inr unsubscribes)"
| "subscribe_loop env (pattern # rest) br unsubscribes =
     (case env pattern of
        Subscribed \<Rightarrow>
          (case async_subscribe br pattern of
             (br', h) \<Rightarrow> subscribe_loop env rest br' (unsubscribes @ [h]))
      | SubscribeFailed \<Rightarrow> subscribe_loop env rest br unsubscribes
      | SubscribeCancelled \<Rightarrow> (br, Inl CancelledError))"

text \<open>The loop \<open>for unsub in unsubscribes: unsub()\<close>.\<close>

definition unsubscribe_loop :: "nat list \<Rightarrow> broker \<Rightarrow> broker" where
  "unsubscribe_loop unsubscribes br = fold unsub unsubscribes br"

text \<open>The filters of the subscriptions behind the given handles.\<close>

definition patterns_of :: "broker \<Rightarrow> nat list \<Rightarrow> string list" where
  "patterns_of br unsubscribes =
     map snd (filter (\<lambda>(h, p). h \<in> set unsubscribes) (subscriptions br))"

text \<open>
  \<open>async_step_discover\<close> up to the end of its listen window: the subscriptions, the
  window with the messages \<open>msgs\<close> that the broker publishes in it, and the
  unsubscriptions. The result is the client's state and either the exception that
  left the step or \<open>self._discovered_sensors\<close>.
\<close>

definition async_step_discover ::
  "(string \<Rightarrow> sub_outcome) \<Rightarrow> sleep_outcome \<Rightarrow> string \<Rightarrow> bool \<Rightarrow> string list \<Rightarrow> broker
   \<Rightarrow> broker \<times> (py_error + (string \<rightharpoonup> sensor_config))"
where
  "async_step_discover env wake module_path enable_outputs msgs br =
     (case subscribe_loop env (topics_to_subscribe module_path enable_outputs) br [] of
        (br1, Inl err) \<Rightarrow> (br1, Inl err)
      | (br1, Inr unsubscribes) \<Rightarrow>
          (case wake of
             SleepCancelled \<Rightarrow> (br1, Inl CancelledError)
           | Elapsed \<Rightarrow>
               (unsubscribe_loop unsubscribes br1,
                Inr (deliver_all module_path (patterns_of br1 unsubscribes) Map.empty msgs))))"

text \<open>
  \<open>async_step_user\<close> between the check for the MQTT client and the end of its listen
  window, in the same way. \<open>match_module\<close> is group 1 of
  \<open>re.match(r"(selfmon/vmod\.[a-fA-F0-9]+)", topic)\<close>.
\<close>

definition subscribe_patterns :: "string list" where
  "subscribe_patterns =
     [''selfmon/vmod.+/temperature'',
      ''selfmon/vmod.+/version'',
      ''selfmon/vmod.+/heartbeat'',
      ''selfmon/vmod.+/vkp/display/#'',
      ''selfmon/vmod.+/prio/#'',
      ''selfmon/vmod.+/vrio/#'',
      ''selfmon/#'']"

definition match_module :: "string \<Rightarrow> string option" where
  "match_module msg_topic =
     (let hex = takeWhile is_hex_char (drop (length ''selfmon/vmod.'') msg_topic) in
      if startswith msg_topic ''selfmon/vmod.'' \<and> hex \<noteq> []
      then Some (''selfmon/vmod.'' @ hex) else None)"

definition module_discovered :: "string set \<Rightarrow> string \<Rightarrow> string set" where
  "module_discovered discovered_modules msg_topic =
     (case match_module msg_topic of
        None \<Rightarrow> discovered_modules
      | Some m \<Rightarrow> insert m discovered_modules)"

definition async_step_user ::
  "(string \<Rightarrow> sub_outcome) \<Rightarrow> sleep_outcome \<Rightarrow> string list \<Rightarrow> broker
   \<Rightarrow> broker \<times> (py_error + string set)"
where
  "async_step_user env wake msgs br =
     (case subscribe_loop env subscribe_patterns br [] of
        (br1, Inl err) \<Rightarrow> (br1, Inl err)
      | (br1, Inr unsubscribes) \<Rightarrow>
          (case wake of
             SleepCancelled \<Rightarrow> (br1, Inl CancelledError)
           | Elapsed \<Rightarrow>
               (unsubscribe_loop unsubscribes br1,
                Inr (fold (\<lambda>m found.
                       if delivered (patterns_of br1 unsubscribes) m
                       then module_discovered found m else found)
                     msgs {}))))"

section \<open>binary\_sensor.py: the zone sensor\<close>

text \<open>
  The entity's state is \<open>attr_is_on\<close> (\<open>None\<close> until the first valid payload). The two
  effects of the callback are kept as logs: \<open>ha_states\<close> holds the state published by
  each call of \<open>async_write_ha_state\<close>, oldest first, and \<open>warnings\<close> the payloads
  passed to \<open>_LOGGER.warning\<close>.
\<close>

record zone_sensor =
  sensor_topic :: string
  attr_unique_id :: string
  attr_name :: string
  attr_device_class :: "string option"
  attr_is_on :: "bool option"
  ha_states :: "bool option list"
  warnings :: "string list"

definition DEVICE_CLASS_MAP :: "string list" where
  "DEVICE_CLASS_MAP =
     [''door'', ''motion'', ''smoke'', ''safety'', ''window'', ''garage_door'',
      ''vibration'', ''tamper'', ''problem'']"

text \<open>
  \<open>module_path.split(".")[-1] if "." in module_path else module_path\<close>, the module's
  identifier in every unique id.
\<close>

definition module_id :: "string \<Rightarrow> string" where
  "module_id module_path =
     (if CHR ''.'' \<in> set module_path then last (py_split CHR ''.'' module_path)
      else module_path)"

text \<open>
  \<open>SelfMonZoneSensor.__init__\<close>. The configuration is an entry that discovery stored,
  so the defaults of its \<open>.get\<close> calls are never taken. \<open>DEVICE_CLASS_MAP.get\<close> gives
  \<open>None\<close> for an unknown class.
\<close>

definition SelfMonZoneSensor ::
  "string \<Rightarrow> string \<Rightarrow> sensor_config \<Rightarrow> string \<Rightarrow> zone_sensor"
where
  "SelfMonZoneSensor module_path sensor_key cfg entry_id =
     \<lparr>sensor_topic = topic cfg,
      attr_unique_id = ''selfmon_'' @ module_id module_path @ ''_zone_'' @ zone_id cfg,
      attr_name = name cfg,
      attr_device_class =
        (if device_class cfg \<noteq> [] \<and> device_class cfg \<noteq> ''None''
            \<and> device_class cfg \<in> set DEVICE_CLASS_MAP
         then Some (device_class cfg) else None),
      attr_is_on = None,
      ha_states = [],
      warnings = []\<rparr>"

definition async_write_ha_state :: "zone_sensor \<Rightarrow> zone_sensor" where
  "async_write_ha_state e = e\<lparr>ha_states := ha_states e @ [attr_is_on e]\<rparr>"

text \<open>\<open>message_received\<close> of \<open>SelfMonZoneSensor.async_added_to_hass\<close>.\<close>

definition zone_message_received :: "zone_sensor \<Rightarrow> string \<Rightarrow> zone_sensor" where
  "zone_message_received e payload =
     (if payload = PAYLOAD_OPEN then async_write_ha_state (e\<lparr>attr_is_on := Some True\<rparr>)
      else if payload = PAYLOAD_CLOSED then async_write_ha_state (e\<lparr>attr_is_on := Some False\<rparr>)
      else e\<lparr>warnings := warnings e @ [payload]\<rparr>)"

text \<open>The entity after each message of a sequence, in order.\<close>

fun zone_states :: "zone_sensor \<Rightarrow> string list \<Rightarrow> zone_sensor list" where
  "zone_states e [] = []"
| "zone_states e (p # ps) =
     zone_message_received e p # zone_states (zone_message_received e p) ps"

section \<open>sensor.py: the temperature sensor\<close>




section \<open>Lemmas on strings and topic filters\<close>

lemma py_split_nonempty: "py_split c s \<noteq> []"
  by (induction s) (auto split: list.splits)

lemma py_split_append:
  "py_split c (a @ c # r) = py_split c a @ py_split c r"
proof (induction a)
  case Nil
  show ?case by simp
next
  case (Cons x a)
  show ?case
  proof (cases "x = c")
    case True
    with Cons show ?thesis by simp
  next
    case False
    obtain w ws where ws: "py_split c a = w # ws"
      using py_split_nonempty [of c a] by (cases "py_split c a") auto
    with False Cons show ?thesis by simp
  qed
qed

lemma last_py_split_append:
  "last (py_split c (a @ c # r)) = last (py_split c r)"
  by (simp add: py_split_append py_split_nonempty)

lemma replace_first_prefix: "replace_first old [] (old @ r) = r"
proof (cases "old @ r")
  case Nil
  then show ?thesis by simp
next
  case (Cons c cs)
  have p: "prefix old (c # cs)"
    unfolding Cons [symmetric] by simp
  then have "replace_first old [] (c # cs) = drop (length old) (c # cs)"
    by simp
  also have "\<dots> = r"
    unfolding Cons [symmetric] by simp
  finally show ?thesis
    unfolding Cons .
qed

lemma match_levels_hash: "match_levels True [''#''] ts = True"
  by (cases ts) auto

lemma match_levels_same_prefix:
  "b \<noteq> [] \<Longrightarrow> ps \<noteq> [] \<Longrightarrow> match_levels w (b @ ps) (b @ ts) = match_levels True ps ts"
proof (induction b arbitrary: w)
  case Nil
  then show ?case by simp
next
  case (Cons x b)
  show ?case
  proof (cases "b = []")
    case True
    with Cons.prems show ?thesis by simp
  next
    case False
    with Cons show ?thesis by simp
  qed
qed

lemma levels_chars: "l \<in> set (py_split c s) \<Longrightarrow> set l \<subseteq> set s"
proof (induction s arbitrary: l)
  case Nil
  then show ?case by simp
next
  case (Cons x s)
  obtain w ws where ws: "py_split c s = w # ws"
    using py_split_nonempty [of c s] by (cases "py_split c s") auto
  show ?case
  proof (cases "x = c")
    case True
    with Cons show ?thesis by auto
  next
    case False
    with Cons.prems ws have "l = x # w \<or> l \<in> set ws" by simp
    then show ?thesis
    proof
      assume "l = x # w"
      moreover have "set w \<subseteq> set s" using Cons.IH [of w] ws by simp
      ultimately show ?thesis by auto
    next
      assume "l \<in> set ws"
      then have "set l \<subseteq> set s" using Cons.IH [of l] ws by simp
      then show ?thesis by auto
    qed
  qed
qed

lemma match_levels_literal_prefix:
  assumes "''+'' \<notin> set b" and "ps \<noteq> []" and "ps \<noteq> [''#'']"
    and "match_levels w (b @ ps) ts"
  shows "\<exists>ts'. ts = b @ ts' \<and> ts' \<noteq> []"
  using assms
proof (induction b arbitrary: w ts)
  case Nil
  then show ?case by (cases ps; cases ts) auto
next
  case (Cons x b)
  show ?case
  proof (cases ts)
    case Nil
    with Cons.prems show ?thesis by simp
  next
    case (Cons t ts'')
    with Cons.prems have "x = t" and m: "match_levels True (b @ ps) ts''"
      by auto
    from Cons.IH [OF _ Cons.prems(2,3) m] Cons.prems(1)
    obtain ts' where "ts'' = b @ ts'" "ts' \<noteq> []" by auto
    with \<open>x = t\<close> Cons show ?thesis by simp
  qed
qed

lemma py_split_prefix:
  "py_split c t = py_split c b @ ts' \<Longrightarrow> ts' \<noteq> [] \<Longrightarrow> prefix (b @ [c]) t"
proof (induction b arbitrary: t)
  case Nil
  then show ?case
    by (cases t) (auto split: if_splits list.splits)
next
  case (Cons y b)
  obtain w ws where ws: "py_split c b = w # ws"
    using py_split_nonempty [of c b] by (cases "py_split c b") auto
  show ?case
  proof (cases t)
    case Nil
    with Cons.prems ws show ?thesis by (auto split: if_splits)
  next
    case (Cons x xs)
    obtain w' ws' where ws': "py_split c xs = w' # ws'"
      using py_split_nonempty [of c xs] by (cases "py_split c xs") auto
    from Cons.prems(1) ws ws' Cons have "x = y \<and> py_split c xs = py_split c b @ ts'"
      by (auto split: if_splits)
    with Cons.IH [of xs] Cons.prems(2) Cons show ?thesis by simp
  qed
qed

declare py_split.simps(2) [simp del]

lemma py_split_no_sep: "c \<notin> set a \<Longrightarrow> py_split c a = [a]"
  by (induction a) (auto simp: py_split.simps(2))

lemma py_split_first: "c \<notin> set a \<Longrightarrow> py_split c (a @ c # r) = a # py_split c r"
  by (simp add: py_split_append py_split_no_sep)

lemma replace_first_base: "replace_first (b @ [c]) [] (b @ c # r) = r"
  using replace_first_prefix [of "b @ [c]" r] by simp

lemma mqtt_matches_base:
  "mqtt_matches (base @ CHR ''/'' # pat) (base @ CHR ''/'' # rel) =
     match_levels True (py_split CHR ''/'' pat) (py_split CHR ''/'' rel)"
  by (simp add: mqtt_matches_def py_split_append match_levels_same_prefix py_split_nonempty)

lemmas topic_defs = TOPIC_PRIO_INPUTS_def TOPIC_VRIO_INPUTS_def TOPIC_PRIO_OUTPUTS_def
  TOPIC_VRIO_OUTPUTS_def TOPIC_TEMPERATURE_def TOPIC_VKP_LINE1_def TOPIC_VKP_LINE2_def
  TOPIC_VERSION_def

lemmas sensor_type_defs = SENSOR_TYPE_ZONE_INPUT_def SENSOR_TYPE_OUTPUT_def
  SENSOR_TYPE_TEMPERATURE_def SENSOR_TYPE_VKP_LINE_def SENSOR_TYPE_VERSION_def

lemma delivered_base:
  "delivered (topics_to_subscribe base outs) (base @ CHR ''/'' # rel) =
     (match_levels True [''prio'', ''inputs'', ''read'', ''#''] (py_split CHR ''/'' rel)
      \<or> match_levels True [''vrio'', ''inputs'', ''read'', ''#''] (py_split CHR ''/'' rel)
      \<or> match_levels True [''temperature''] (py_split CHR ''/'' rel)
      \<or> match_levels True [''vkp'', ''display'', ''line1''] (py_split CHR ''/'' rel)
      \<or> match_levels True [''vkp'', ''display'', ''line2''] (py_split CHR ''/'' rel)
      \<or> match_levels True [''version''] (py_split CHR ''/'' rel)
      \<or> (outs \<and> (match_levels True [''prio'', ''outputs'', ''#''] (py_split CHR ''/'' rel)
                 \<or> match_levels True [''vrio'', ''outputs'', ''#''] (py_split CHR ''/'' rel))))"
  by (simp add: delivered_def topics_to_subscribe_def topic_defs mqtt_matches_base
      py_split.simps(2))

section \<open>The classifier: outputs and foreign topics\<close>

lemma split_prio_outputs:
  "py_split CHR ''/'' (''prio/outputs/'' @ s) = ''prio'' # ''outputs'' # py_split CHR ''/'' s"
  "py_split CHR ''/'' (''vrio/outputs/'' @ s) = ''vrio'' # ''outputs'' # py_split CHR ''/'' s"
  using py_split_first [of "CHR ''/''" "''prio''" "''outputs/'' @ s"]
    py_split_first [of "CHR ''/''" "''vrio''" "''outputs/'' @ s"]
    py_split_first [of "CHR ''/''" "''outputs''" "s"]
  by simp_all

lemma outputs_not_delivered:
  "\<not> delivered (topics_to_subscribe base False) (base @ ''/prio/outputs/'' @ s)"
  "\<not> delivered (topics_to_subscribe base False) (base @ ''/vrio/outputs/'' @ s)"
  using split_prio_outputs [of s] by (simp_all add: delivered_base)

lemma outputs_delivered:
  "delivered (topics_to_subscribe base True) (base @ ''/prio/outputs/'' @ s)"
  "delivered (topics_to_subscribe base True) (base @ ''/vrio/outputs/'' @ s)"
  using split_prio_outputs [of s] by (simp_all add: delivered_base match_levels_hash)

lemma received_prio_output:
  "discover_message_received base found (base @ ''/prio/outputs/'' @ s) =
     Inr (found(base @ ''/prio/outputs/'' @ s \<mapsto>
       \<lparr>sensor_type = ''output'',
        zone_id = last (py_split CHR ''/'' s),
        name = ''Alarm - Output '' @ last (py_split CHR ''/'' s),
        device_class = ''None'',
        enabled = True,
        topic = base @ ''/prio/outputs/'' @ s,
        is_prio = Some True,
        auto_enabled = False\<rparr>))"
proof -
  have l: "last (py_split CHR ''/'' (''prio/outputs/'' @ s)) = last (py_split CHR ''/'' s)"
    using last_py_split_append [of "CHR ''/''" "''prio/outputs''" s] by simp
  show ?thesis
    using l
    by (simp add: discover_message_received_def replace_first_base startswith_def topic_defs
        Let_def get_default_sensor_name_def SENSOR_TYPE_ZONE_INPUT_def SENSOR_TYPE_OUTPUT_def)
qed

lemma received_vrio_output:
  "discover_message_received base found (base @ ''/vrio/outputs/'' @ s) =
     Inr (found(base @ ''/vrio/outputs/'' @ s \<mapsto>
       \<lparr>sensor_type = ''output'',
        zone_id = last (py_split CHR ''/'' s),
        name = ''Alarm - Output '' @ last (py_split CHR ''/'' s),
        device_class = ''None'',
        enabled = True,
        topic = base @ ''/vrio/outputs/'' @ s,
        is_prio = Some (contains ''prio/outputs'' s),
        auto_enabled = False\<rparr>))"
proof -
  have l: "last (py_split CHR ''/'' (''vrio/outputs/'' @ s)) = last (py_split CHR ''/'' s)"
    using last_py_split_append [of "CHR ''/''" "''vrio/outputs''" s] by simp
  show ?thesis
    using l
    by (simp add: discover_message_received_def replace_first_base startswith_def topic_defs
        Let_def get_default_sensor_name_def SENSOR_TYPE_ZONE_INPUT_def SENSOR_TYPE_OUTPUT_def)
qed

lemma last_split_topic:
  "last (py_split CHR ''/'' (base @ ''/prio/outputs/'' @ s)) = last (py_split CHR ''/'' s)"
  "last (py_split CHR ''/'' (base @ ''/vrio/outputs/'' @ s)) = last (py_split CHR ''/'' s)"
  using last_py_split_append [of "CHR ''/''" "base @ ''/prio/outputs''" s]
    last_py_split_append [of "CHR ''/''" "base @ ''/vrio/outputs''" s]
  by simp_all

lemma classify_delivered:
  "delivered (topics_to_subscribe b outs) t \<Longrightarrow>
   classify b t outs =
     (case discover_message_received b Map.empty t of
        Inl err \<Rightarrow> Inl err
      | Inr found \<Rightarrow> Inr (found t))"
  by (simp add: classify_def)

text \<open>
  C1. For every module base and every \<open>s\<close>: with outputs disabled, the topics
  \<open>base/prio/outputs/s\<close> and \<open>base/vrio/outputs/s\<close> match no subscribed filter and give
  no descriptor; with outputs enabled they give a descriptor of type output whose zone
  id is the final path segment of the topic, with device class \<open>"None"\<close> and
  \<open>auto_enabled\<close> false.
\<close>

theorem outputs_gated_by_subscription:
  "classify base (base @ ''/prio/outputs/'' @ s) False = Inr None
   \<and> classify base (base @ ''/vrio/outputs/'' @ s) False = Inr None
   \<and> classify base (base @ ''/prio/outputs/'' @ s) True =
       Inr (Some \<lparr>sensor_type = SENSOR_TYPE_OUTPUT,
                  zone_id = last (py_split CHR ''/'' (base @ ''/prio/outputs/'' @ s)),
                  name = ''Alarm - Output ''
                         @ last (py_split CHR ''/'' (base @ ''/prio/outputs/'' @ s)),
                  device_class = ''None'',
                  enabled = True,
                  topic = base @ ''/prio/outputs/'' @ s,
                  is_prio = Some True,
                  auto_enabled = False\<rparr>)
   \<and> classify base (base @ ''/vrio/outputs/'' @ s) True =
       Inr (Some \<lparr>sensor_type = SENSOR_TYPE_OUTPUT,
                  zone_id = last (py_split CHR ''/'' (base @ ''/vrio/outputs/'' @ s)),
                  name = ''Alarm - Output ''
                         @ last (py_split CHR ''/'' (base @ ''/vrio/outputs/'' @ s)),
                  device_class = ''None'',
                  enabled = True,
                  topic = base @ ''/vrio/outputs/'' @ s,
                  is_prio = Some (contains ''prio/outputs'' s),
                  auto_enabled = False\<rparr>)"
proof -
  have off: "classify base (base @ ''/prio/outputs/'' @ s) False = Inr None"
    "classify base (base @ ''/vrio/outputs/'' @ s) False = Inr None"
    using outputs_not_delivered [of base s] by (simp_all add: classify_def)
  note on1 = classify_delivered [OF outputs_delivered(1) [of base s]]
  note on2 = classify_delivered [OF outputs_delivered(2) [of base s]]
  show ?thesis
    unfolding off on1 on2 received_prio_output received_vrio_output last_split_topic
    by (simp add: SENSOR_TYPE_OUTPUT_def)
qed

lemma plus_not_level:
  assumes "CHR ''+'' \<notin> set base"
  shows "''+'' \<notin> set (py_split CHR ''/'' base)"
proof
  assume "''+'' \<in> set (py_split CHR ''/'' base)"
  then have "set ''+'' \<subseteq> set base" by (rule levels_chars)
  with assms show False by simp
qed

lemma matches_needs_prefix:
  assumes "CHR ''+'' \<notin> set base" and "py_split CHR ''/'' pat \<noteq> [''#'']"
    and "mqtt_matches (base @ CHR ''/'' # pat) t"
  shows "prefix (base @ ''/'') t"
proof -
  from assms(3)
  have "match_levels (\<not> startswith t ''$'')
      (py_split CHR ''/'' base @ py_split CHR ''/'' pat) (py_split CHR ''/'' t)"
    by (simp add: mqtt_matches_def py_split_append)
  from match_levels_literal_prefix [OF plus_not_level [OF assms(1)] py_split_nonempty assms(2) this]
  obtain ts' where "py_split CHR ''/'' t = py_split CHR ''/'' base @ ts'" "ts' \<noteq> []"
    by auto
  then show ?thesis by (rule py_split_prefix)
qed

lemma subscribed_pattern_shape:
  assumes "p \<in> set (topics_to_subscribe base outs)"
  shows "\<exists>pat. p = base @ CHR ''/'' # pat \<and> py_split CHR ''/'' pat \<noteq> [''#'']"
  using assms
  by (auto simp: topics_to_subscribe_def topic_defs py_split.simps(2) split: if_splits)

text \<open>
  C3. For a module base without the wildcard \<open>+\<close> (every module path the flow accepts
  is one) and a topic that does not begin with the base and a slash, no subscribed
  filter matches: the message never reaches the callback and there is no descriptor,
  whether outputs are enabled or not.
\<close>

theorem foreign_topic_ignored:
  assumes "CHR ''+'' \<notin> set module_base"
    and "\<not> startswith full_topic (module_base @ ''/'')"
  shows "classify module_base full_topic outputs_enabled = Inr None"
proof -
  have "\<not> delivered (topics_to_subscribe module_base outputs_enabled) full_topic"
  proof
    assume "delivered (topics_to_subscribe module_base outputs_enabled) full_topic"
    then obtain p where p: "p \<in> set (topics_to_subscribe module_base outputs_enabled)"
      and m: "mqtt_matches p full_topic"
      by (auto simp: delivered_def list_ex_iff)
    from subscribed_pattern_shape [OF p] obtain pat
      where "p = module_base @ CHR ''/'' # pat" "py_split CHR ''/'' pat \<noteq> [''#'']"
      by auto
    with m assms(1) have "prefix (module_base @ ''/'') full_topic"
      using matches_needs_prefix by blast
    with assms(2) show False by (simp add: startswith_def)
  qed
  then show ?thesis by (simp add: classify_def)
qed

theorem foreign_topic_ignored_witness:
  "CHR ''+'' \<notin> set ''selfmon/vmod.010aa1''
   \<and> \<not> startswith ''other/module/topic'' (''selfmon/vmod.010aa1'' @ ''/'')
   \<and> classify ''selfmon/vmod.010aa1'' ''other/module/topic'' False = Inr None
   \<and> classify ''selfmon/vmod.010aa1'' ''other/module/topic'' True = Inr None"
  using foreign_topic_ignored [of "''selfmon/vmod.010aa1''" "''other/module/topic''" False]
    foreign_topic_ignored [of "''selfmon/vmod.010aa1''" "''other/module/topic''" True]
  by (simp add: startswith_def)

text \<open>
  The prefix test is the subscription's, not the callback's: the callback handed a
  topic that does not begin with the module base classifies what \<open>replace\<close> leaves of
  it.
\<close>

lemma callback_without_filter:
  "discover_message_received ''selfmon/vmod.010aa1'' Map.empty ''temperature'' =
     Inr [''temperature'' \<mapsto>
       \<lparr>sensor_type = ''temperature'', zone_id = ''temperature'',
        name = ''Temperature Sensor'', device_class = ''temperature'', enabled = True,
        topic = ''temperature'', is_prio = None, auto_enabled = True\<rparr>]"
  by (simp add: discover_message_received_def startswith_def topic_defs Let_def
      get_default_sensor_name_def sensor_type_defs)

section \<open>The classifier: zone inputs\<close>

lemma py_split_level:
  "c \<notin> set a \<Longrightarrow> py_split c (a @ y) = (a @ hd (py_split c y)) # tl (py_split c y)"
proof (induction a)
  case Nil
  then show ?case using py_split_nonempty [of c y] by simp
next
  case (Cons x a)
  then show ?case by (auto simp: py_split.simps(2))
qed

lemma hd_py_split_empty:
  "hd (py_split c y) = [] \<longleftrightarrow> y = [] \<or> (\<exists>y'. y = c # y')"
proof (cases y)
  case Nil
  then show ?thesis by simp
next
  case (Cons x xs)
  then show ?thesis
    using py_split_nonempty [of c xs]
    by (cases "py_split c xs") (auto simp: py_split.simps(2))
qed

lemma split_inputs_prefix:
  "py_split CHR ''/'' (''prio/inputs/read'' @ y) =
     [''prio'', ''inputs'', ''read'' @ hd (py_split CHR ''/'' y)] @ tl (py_split CHR ''/'' y)"
  "py_split CHR ''/'' (''vrio/inputs/read'' @ y) =
     [''vrio'', ''inputs'', ''read'' @ hd (py_split CHR ''/'' y)] @ tl (py_split CHR ''/'' y)"
  using py_split_first [of "CHR ''/''" "''prio''" "''inputs/read'' @ y"]
    py_split_first [of "CHR ''/''" "''vrio''" "''inputs/read'' @ y"]
    py_split_first [of "CHR ''/''" "''inputs''" "''read'' @ y"]
    py_split_level [of "CHR ''/''" "''read''" y]
  by simp_all

lemma inputs_delivered_iff:
  "delivered (topics_to_subscribe base outs) (base @ ''/'' @ ''prio/inputs/read'' @ y)
     \<longleftrightarrow> y = [] \<or> (\<exists>y'. y = CHR ''/'' # y')"
  "delivered (topics_to_subscribe base outs) (base @ ''/'' @ ''vrio/inputs/read'' @ y)
     \<longleftrightarrow> y = [] \<or> (\<exists>y'. y = CHR ''/'' # y')"
  using split_inputs_prefix [of y] hd_py_split_empty [of "CHR ''/''" y]
  by (simp_all add: delivered_base match_levels_hash eq_commute [of "[]"])

lemma received_zone_input:
  assumes "startswith rel TOPIC_PRIO_INPUTS \<or> startswith rel TOPIC_VRIO_INPUTS"
  shows "discover_message_received base found (base @ ''/'' @ rel) =
     (case get_default_device_class (last (py_split CHR ''/'' rel)) (base @ ''/'' @ rel) of
        Inl err \<Rightarrow> Inl err
      | Inr dc \<Rightarrow>
          Inr (found(base @ ''/'' @ rel \<mapsto>
            \<lparr>sensor_type = SENSOR_TYPE_ZONE_INPUT,
             zone_id = last (py_split CHR ''/'' rel),
             name = ''Alarm - Zone '' @ last (py_split CHR ''/'' rel),
             device_class = dc,
             enabled = True,
             topic = base @ ''/'' @ rel,
             is_prio = Some (contains TOPIC_PRIO_INPUTS rel),
             auto_enabled = False\<rparr>)))"
  using assms
  by (simp add: discover_message_received_def replace_first_base Let_def
      get_default_sensor_name_def split: sum.split)

lemma received_not_zone_input:
  assumes "\<not> startswith rel TOPIC_PRIO_INPUTS" and "\<not> startswith rel TOPIC_VRIO_INPUTS"
  shows "\<exists>found'. discover_message_received base found (base @ ''/'' @ rel) = Inr found'
     \<and> (found' (base @ ''/'' @ rel) = found (base @ ''/'' @ rel)
        \<or> (\<exists>d. found' (base @ ''/'' @ rel) = Some d \<and> sensor_type d \<noteq> SENSOR_TYPE_ZONE_INPUT))"
  using assms
  by (simp add: discover_message_received_def replace_first_base Let_def sensor_type_defs)

lemma startswith_inputs:
  "startswith rel TOPIC_PRIO_INPUTS \<longleftrightarrow> (\<exists>y. rel = ''prio/inputs/read'' @ y)"
  "startswith rel TOPIC_VRIO_INPUTS \<longleftrightarrow> (\<exists>y. rel = ''vrio/inputs/read'' @ y)"
  unfolding startswith_def topic_defs prefix_def by auto

lemma rule1_topic_iff:
  "rel = ''prio/inputs/read'' \<or> startswith rel ''prio/inputs/read/''
     \<or> rel = ''vrio/inputs/read'' \<or> startswith rel ''vrio/inputs/read/''
   \<longleftrightarrow>
     delivered (topics_to_subscribe base outs) (base @ ''/'' @ rel)
     \<and> (startswith rel TOPIC_PRIO_INPUTS \<or> startswith rel TOPIC_VRIO_INPUTS)"
proof -
  have p: "startswith rel TOPIC_PRIO_INPUTS \<Longrightarrow>
      delivered (topics_to_subscribe base outs) (base @ ''/'' @ rel)
      \<longleftrightarrow> rel = ''prio/inputs/read'' \<or> startswith rel ''prio/inputs/read/''"
  proof -
    assume "startswith rel TOPIC_PRIO_INPUTS"
    then obtain y where y: "rel = ''prio/inputs/read'' @ y"
      unfolding startswith_inputs by blast
    show ?thesis
      unfolding y inputs_delivered_iff by (auto simp: startswith_def prefix_def)
  qed
  have v: "startswith rel TOPIC_VRIO_INPUTS \<Longrightarrow>
      delivered (topics_to_subscribe base outs) (base @ ''/'' @ rel)
      \<longleftrightarrow> rel = ''vrio/inputs/read'' \<or> startswith rel ''vrio/inputs/read/''"
  proof -
    assume "startswith rel TOPIC_VRIO_INPUTS"
    then obtain y where y: "rel = ''vrio/inputs/read'' @ y"
      unfolding startswith_inputs by blast
    show ?thesis
      unfolding y inputs_delivered_iff by (auto simp: startswith_def prefix_def)
  qed
  have d: "\<not> (startswith rel TOPIC_PRIO_INPUTS \<and> startswith rel TOPIC_VRIO_INPUTS)"
    by (auto simp: startswith_def topic_defs prefix_def)
  have w: "rel = ''prio/inputs/read'' \<or> startswith rel ''prio/inputs/read/''
      \<or> rel = ''vrio/inputs/read'' \<or> startswith rel ''vrio/inputs/read/'' \<Longrightarrow>
      startswith rel TOPIC_PRIO_INPUTS \<or> startswith rel TOPIC_VRIO_INPUTS"
    by (auto simp: startswith_def topic_defs prefix_def)
  have n1: "startswith rel TOPIC_PRIO_INPUTS \<Longrightarrow>
      rel \<noteq> ''vrio/inputs/read'' \<and> \<not> startswith rel ''vrio/inputs/read/''"
    by (auto simp: startswith_def topic_defs prefix_def)
  have n2: "startswith rel TOPIC_VRIO_INPUTS \<Longrightarrow>
      rel \<noteq> ''prio/inputs/read'' \<and> \<not> startswith rel ''prio/inputs/read/''"
    by (auto simp: startswith_def topic_defs prefix_def)
  show ?thesis
    using p v d w n1 n2 by blast
qed

lemma last_split_under_base:
  "last (py_split CHR ''/'' (base @ ''/'' @ rel)) = last (py_split CHR ''/'' rel)"
  using last_py_split_append [of "CHR ''/''" base rel] by simp

lemma contains_prefix: "prefix sub s \<Longrightarrow> contains sub s"
  by (cases s) auto

lemma contains_chars: "contains sub s \<Longrightarrow> set sub \<subseteq> set s"
proof (induction s)
  case Nil
  then show ?case by simp
next
  case (Cons a s)
  from Cons.prems have "prefix sub (a # s) \<or> contains sub s" by simp
  then show ?case
  proof
    assume "prefix sub (a # s)"
    then show ?thesis by (rule set_mono_prefix)
  next
    assume "contains sub s"
    then have "set sub \<subseteq> set s" by (rule Cons.IH)
    then show ?thesis by auto
  qed
qed

lemma vrio_not_prio:
  assumes "CHR ''/'' \<notin> set z"
  shows "\<not> contains ''prio/inputs/read'' (''vrio/inputs/read/'' @ z)"
proof -
  have "\<not> contains ''prio/inputs/read'' z"
    using contains_chars [of "''prio/inputs/read''" z] assms by auto
  then show ?thesis by simp
qed

lemma classify_zone_input:
  assumes "rel = ''prio/inputs/read'' \<or> startswith rel ''prio/inputs/read/''
      \<or> rel = ''vrio/inputs/read'' \<or> startswith rel ''vrio/inputs/read/''"
  shows "classify base (base @ ''/'' @ rel) outs =
          (case get_default_device_class
                  (last (py_split CHR ''/'' (base @ ''/'' @ rel))) (base @ ''/'' @ rel) of
             Inl err \<Rightarrow> Inl err
           | Inr dc \<Rightarrow>
               Inr (Some \<lparr>sensor_type = SENSOR_TYPE_ZONE_INPUT,
                          zone_id = last (py_split CHR ''/'' (base @ ''/'' @ rel)),
                          name = ''Alarm - Zone ''
                                 @ last (py_split CHR ''/'' (base @ ''/'' @ rel)),
                          device_class = dc,
                          enabled = True,
                          topic = base @ ''/'' @ rel,
                          is_prio = Some (contains ''prio/inputs/read'' rel),
                          auto_enabled = False\<rparr>))"
proof -
  from assms have d: "delivered (topics_to_subscribe base outs) (base @ ''/'' @ rel)"
    and s: "startswith rel TOPIC_PRIO_INPUTS \<or> startswith rel TOPIC_VRIO_INPUTS"
    using rule1_topic_iff [of rel base outs] by blast+
  show ?thesis
    unfolding classify_delivered [OF d] received_zone_input [OF s] last_split_under_base
    by (simp add: TOPIC_PRIO_INPUTS_def split: sum.split)
qed

text \<open>
  C5, as amended. Let the topic be \<open>base/rel\<close>. Rule 1 applies exactly when \<open>rel\<close> is
  \<open>prio/inputs/read\<close> or \<open>vrio/inputs/read\<close>, or starts with one of them and a slash: the
  callback tests the prefix without the slash, and the filter \<open>.../read/#\<close> also delivers
  the bare topic. The descriptor then has type zone input, the topic's final path
  segment as zone id, the device class of the zone heuristic and \<open>auto_enabled\<close> false,
  unless the heuristic raises. \<open>is_prio\<close> tells whether \<open>rel\<close> contains
  \<open>prio/inputs/read\<close>: it is true for the prio form, and false for the vrio form
  followed by a zone id without a slash. The spec's example holds.
\<close>

theorem zone_input_rule:
  "(rel = ''prio/inputs/read'' \<or> startswith rel ''prio/inputs/read/''
      \<or> rel = ''vrio/inputs/read'' \<or> startswith rel ''vrio/inputs/read/''
    \<longrightarrow> classify base (base @ ''/'' @ rel) outs =
          (case get_default_device_class
                  (last (py_split CHR ''/'' (base @ ''/'' @ rel))) (base @ ''/'' @ rel) of
             Inl err \<Rightarrow> Inl err
           | Inr dc \<Rightarrow>
               Inr (Some \<lparr>sensor_type = SENSOR_TYPE_ZONE_INPUT,
                          zone_id = last (py_split CHR ''/'' (base @ ''/'' @ rel)),
                          name = ''Alarm - Zone ''
                                 @ last (py_split CHR ''/'' (base @ ''/'' @ rel)),
                          device_class = dc,
                          enabled = True,
                          topic = base @ ''/'' @ rel,
                          is_prio = Some (contains ''prio/inputs/read'' rel),
                          auto_enabled = False\<rparr>)))
   \<and> (\<not> (rel = ''prio/inputs/read'' \<or> startswith rel ''prio/inputs/read/''
           \<or> rel = ''vrio/inputs/read'' \<or> startswith rel ''vrio/inputs/read/'')
      \<longrightarrow> (\<exists>r. classify base (base @ ''/'' @ rel) outs = Inr r
              \<and> (case r of None \<Rightarrow> True
                           | Some d \<Rightarrow> sensor_type d \<noteq> SENSOR_TYPE_ZONE_INPUT)))
   \<and> (startswith rel ''prio/inputs/read'' \<longrightarrow> contains ''prio/inputs/read'' rel)
   \<and> (CHR ''/'' \<notin> set z \<longrightarrow> \<not> contains ''prio/inputs/read'' (''vrio/inputs/read/'' @ z))
   \<and> classify ''selfmon/vmod.010aa1'' ''selfmon/vmod.010aa1/prio/inputs/read/7'' False =
       Inr (Some \<lparr>sensor_type = ''zone_input'', zone_id = ''7'', name = ''Alarm - Zone 7'',
                  device_class = ''door'', enabled = True,
                  topic = ''selfmon/vmod.010aa1/prio/inputs/read/7'',
                  is_prio = Some True, auto_enabled = False\<rparr>)"
proof -
  let ?full = "base @ ''/'' @ rel"
  let ?rule1 = "rel = ''prio/inputs/read'' \<or> startswith rel ''prio/inputs/read/''
      \<or> rel = ''vrio/inputs/read'' \<or> startswith rel ''vrio/inputs/read/''"
  note yes = classify_zone_input [of rel base outs]
  have no: "\<exists>r. classify base ?full outs = Inr r
              \<and> (case r of None \<Rightarrow> True
                           | Some d \<Rightarrow> sensor_type d \<noteq> SENSOR_TYPE_ZONE_INPUT)"
    if r: "\<not> ?rule1"
  proof (cases "delivered (topics_to_subscribe base outs) ?full")
    case False
    then show ?thesis by (simp add: classify_def)
  next
    case True
    with r have "\<not> startswith rel TOPIC_PRIO_INPUTS" "\<not> startswith rel TOPIC_VRIO_INPUTS"
      using rule1_topic_iff [of rel base outs] by blast+
    from received_not_zone_input [OF this, of base Map.empty]
    show ?thesis
      unfolding classify_delivered [OF True] by auto
  qed
  have p: "contains ''prio/inputs/read'' rel" if "startswith rel ''prio/inputs/read''"
    using that by (simp add: startswith_def contains_prefix)
  have ex: "classify ''selfmon/vmod.010aa1'' ''selfmon/vmod.010aa1/prio/inputs/read/7'' False =
       Inr (Some \<lparr>sensor_type = ''zone_input'', zone_id = ''7'', name = ''Alarm - Zone 7'',
                  device_class = ''door'', enabled = True,
                  topic = ''selfmon/vmod.010aa1/prio/inputs/read/7'',
                  is_prio = Some True, auto_enabled = False\<rparr>)"
    by code_simp
  from yes no p vrio_not_prio [of z] ex show ?thesis by blast
qed

theorem zone_input_rule_witness:
  "startswith ''vrio/inputs/read/12'' ''vrio/inputs/read/''
   \<and> CHR ''/'' \<notin> set ''12''
   \<and> classify ''selfmon/vmod.010aa1'' (''selfmon/vmod.010aa1'' @ ''/'' @ ''vrio/inputs/read/12'')
        True =
       Inr (Some \<lparr>sensor_type = ''zone_input'', zone_id = ''12'', name = ''Alarm - Zone 12'',
                  device_class = ''motion'', enabled = True,
                  topic = ''selfmon/vmod.010aa1/vrio/inputs/read/12'',
                  is_prio = Some False, auto_enabled = False\<rparr>)
   \<and> \<not> (''temperature'' = ''prio/inputs/read'' \<or> startswith ''temperature'' ''prio/inputs/read/''
         \<or> ''temperature'' = ''vrio/inputs/read''
         \<or> startswith ''temperature'' ''vrio/inputs/read/'')
   \<and> (\<exists>r. classify ''selfmon/vmod.010aa1'' (''selfmon/vmod.010aa1'' @ ''/'' @ ''temperature'')
              True = Inr r
          \<and> (case r of None \<Rightarrow> True | Some d \<Rightarrow> sensor_type d \<noteq> SENSOR_TYPE_ZONE_INPUT))"
proof -
  have g: "get_default_device_class ''12'' ''selfmon/vmod.010aa1/vrio/inputs/read/12''
      = Inr ''motion''"
    by code_simp
  have l: "last (py_split CHR ''/'' ''selfmon/vmod.010aa1/vrio/inputs/read/12'') = ''12''"
    by code_simp
  have c: "contains ''prio/inputs/read'' ''vrio/inputs/read/12'' = False"
    by code_simp
  show ?thesis
    using zone_input_rule [of "''vrio/inputs/read/12''" "''selfmon/vmod.010aa1''" True "''12''"]
      zone_input_rule [of "''temperature''" "''selfmon/vmod.010aa1''" True "''12''"]
      g l c
    by (simp add: startswith_def SENSOR_TYPE_ZONE_INPUT_def)
qed

text \<open>
  The claim as stated fails twice: the bare topic \<open>.../prio/inputs/read\<close>, whose relative
  part does not start with \<open>prio/inputs/read/\<close>, is a zone input with zone id \<open>read\<close>; and
  a topic of the vrio form whose remainder contains \<open>prio/inputs/read\<close> has \<open>is_prio\<close>
  true.
\<close>

theorem zone_input_rule_counterexample:
  "classify ''selfmon/vmod.010aa1'' ''selfmon/vmod.010aa1/prio/inputs/read'' False =
     Inr (Some \<lparr>sensor_type = ''zone_input'', zone_id = ''read'',
                name = ''Alarm - Zone read'', device_class = ''None'', enabled = True,
                topic = ''selfmon/vmod.010aa1/prio/inputs/read'', is_prio = Some True,
                auto_enabled = False\<rparr>)
   \<and> \<not> startswith ''prio/inputs/read'' ''prio/inputs/read/''
   \<and> \<not> startswith ''prio/inputs/read'' ''vrio/inputs/read/''
   \<and> classify ''selfmon/vmod.010aa1''
        ''selfmon/vmod.010aa1/vrio/inputs/read/prio/inputs/read'' False =
     Inr (Some \<lparr>sensor_type = ''zone_input'', zone_id = ''read'',
                name = ''Alarm - Zone read'', device_class = ''None'', enabled = True,
                topic = ''selfmon/vmod.010aa1/vrio/inputs/read/prio/inputs/read'',
                is_prio = Some True, auto_enabled = False\<rparr>)
   \<and> startswith ''vrio/inputs/read/prio/inputs/read'' ''vrio/inputs/read/''"
  by code_simp

section \<open>Unique ids of zone sensors\<close>

lemma module_id_suffix:
  assumes "CHR ''.'' \<notin> set h"
  shows "module_id (''selfmon/vmod.'' @ h) = h"
proof -
  have "last (py_split CHR ''.'' (''selfmon/vmod'' @ CHR ''.'' # h)) = last (py_split CHR ''.'' h)"
    by (rule last_py_split_append)
  with assms show ?thesis
    by (simp add: module_id_def py_split_no_sep)
qed

text \<open>
  C9. The unique id of a zone sensor is \<open>selfmon_\<close>, the module id, \<open>_zone_\<close> and the
  zone id of its configuration, and nothing else of the configuration enters it; the
  module id of \<open>selfmon/vmod.h\<close> is \<open>h\<close>. So when the topics \<open>base/prio/inputs/read/s\<close>
  and \<open>base/vrio/inputs/read/s\<close> both give a descriptor, the two descriptors differ in
  their topic, share the zone id (the final path segment) and give two sensors with
  the same unique id.
\<close>

theorem zone_unique_id:
  "attr_unique_id (SelfMonZoneSensor module_path key cfg entry) =
     ''selfmon_'' @ module_id module_path @ ''_zone_'' @ zone_id cfg
   \<and> (CHR ''.'' \<notin> set h \<longrightarrow> module_id (''selfmon/vmod.'' @ h) = h)
   \<and> (classify base (base @ ''/prio/inputs/read/'' @ s) outs = Inr (Some da)
      \<and> classify base (base @ ''/vrio/inputs/read/'' @ s) outs = Inr (Some db)
      \<longrightarrow> topic da \<noteq> topic db
          \<and> zone_id da = last (py_split CHR ''/'' s)
          \<and> zone_id db = last (py_split CHR ''/'' s)
          \<and> attr_unique_id (SelfMonZoneSensor module_path ka da ea) =
            attr_unique_id (SelfMonZoneSensor module_path kb db eb))"
proof -
  have u: "attr_unique_id (SelfMonZoneSensor module_path k c e) =
     ''selfmon_'' @ module_id module_path @ ''_zone_'' @ zone_id c" for k c e
    by (simp add: SelfMonZoneSensor_def)
  have l: "last (py_split CHR ''/'' (base @ ''/'' @ ''prio/inputs/read/'' @ s))
      = last (py_split CHR ''/'' s)"
    "last (py_split CHR ''/'' (base @ ''/'' @ ''vrio/inputs/read/'' @ s))
      = last (py_split CHR ''/'' s)"
    using last_py_split_append [of "CHR ''/''" "base @ ''/prio/inputs/read''" s]
      last_py_split_append [of "CHR ''/''" "base @ ''/vrio/inputs/read''" s]
    by simp_all
  have p: "zone_id da = last (py_split CHR ''/'' s)
      \<and> topic da = base @ ''/prio/inputs/read/'' @ s"
    if "classify base (base @ ''/prio/inputs/read/'' @ s) outs = Inr (Some da)"
    using that classify_zone_input [of "''prio/inputs/read/'' @ s" base outs] l(1)
    by (auto simp: startswith_def split: sum.splits)
  have v: "zone_id db = last (py_split CHR ''/'' s)
      \<and> topic db = base @ ''/vrio/inputs/read/'' @ s"
    if "classify base (base @ ''/vrio/inputs/read/'' @ s) outs = Inr (Some db)"
    using that classify_zone_input [of "''vrio/inputs/read/'' @ s" base outs] l(2)
    by (auto simp: startswith_def split: sum.splits)
  show ?thesis
    using p v module_id_suffix [of h] by (auto simp: u)
qed

theorem zone_unique_id_witness:
  "CHR ''.'' \<notin> set ''010aa1''
   \<and> module_id ''selfmon/vmod.010aa1'' = ''010aa1''
   \<and> classify ''selfmon/vmod.010aa1'' (''selfmon/vmod.010aa1'' @ ''/prio/inputs/read/'' @ ''7'')
        False
      = Inr (Some \<lparr>sensor_type = ''zone_input'', zone_id = ''7'', name = ''Alarm - Zone 7'',
                   device_class = ''door'', enabled = True,
                   topic = ''selfmon/vmod.010aa1/prio/inputs/read/7'',
                   is_prio = Some True, auto_enabled = False\<rparr>)
   \<and> classify ''selfmon/vmod.010aa1'' (''selfmon/vmod.010aa1'' @ ''/vrio/inputs/read/'' @ ''7'')
        False
      = Inr (Some \<lparr>sensor_type = ''zone_input'', zone_id = ''7'', name = ''Alarm - Zone 7'',
                   device_class = ''door'', enabled = True,
                   topic = ''selfmon/vmod.010aa1/vrio/inputs/read/7'',
                   is_prio = Some False, auto_enabled = False\<rparr>)
   \<and> attr_unique_id (SelfMonZoneSensor ''selfmon/vmod.010aa1''
          ''selfmon/vmod.010aa1/prio/inputs/read/7''
          \<lparr>sensor_type = ''zone_input'', zone_id = ''7'', name = ''Alarm - Zone 7'',
           device_class = ''door'', enabled = True,
           topic = ''selfmon/vmod.010aa1/prio/inputs/read/7'',
           is_prio = Some True, auto_enabled = False\<rparr> ''entry'')
      = attr_unique_id (SelfMonZoneSensor ''selfmon/vmod.010aa1''
          ''selfmon/vmod.010aa1/vrio/inputs/read/7''
          \<lparr>sensor_type = ''zone_input'', zone_id = ''7'', name = ''Alarm - Zone 7'',
           device_class = ''door'', enabled = True,
           topic = ''selfmon/vmod.010aa1/vrio/inputs/read/7'',
           is_prio = Some False, auto_enabled = False\<rparr> ''entry'')
   \<and> attr_unique_id (SelfMonZoneSensor ''selfmon/vmod.010aa1''
          ''selfmon/vmod.010aa1/prio/inputs/read/7''
          \<lparr>sensor_type = ''zone_input'', zone_id = ''7'', name = ''Alarm - Zone 7'',
           device_class = ''door'', enabled = True,
           topic = ''selfmon/vmod.010aa1/prio/inputs/read/7'',
           is_prio = Some True, auto_enabled = False\<rparr> ''entry'')
      = ''selfmon_010aa1_zone_7''"
proof -
  have c1: "classify ''selfmon/vmod.010aa1''
      (''selfmon/vmod.010aa1'' @ ''/prio/inputs/read/'' @ ''7'') False
      = Inr (Some \<lparr>sensor_type = ''zone_input'', zone_id = ''7'', name = ''Alarm - Zone 7'',
                   device_class = ''door'', enabled = True,
                   topic = ''selfmon/vmod.010aa1/prio/inputs/read/7'',
                   is_prio = Some True, auto_enabled = False\<rparr>)"
    by code_simp
  have c2: "classify ''selfmon/vmod.010aa1''
      (''selfmon/vmod.010aa1'' @ ''/vrio/inputs/read/'' @ ''7'') False
      = Inr (Some \<lparr>sensor_type = ''zone_input'', zone_id = ''7'', name = ''Alarm - Zone 7'',
                   device_class = ''door'', enabled = True,
                   topic = ''selfmon/vmod.010aa1/vrio/inputs/read/7'',
                   is_prio = Some False, auto_enabled = False\<rparr>)"
    by code_simp
  have h: "CHR ''.'' \<notin> set ''010aa1''"
    by simp
  from zone_unique_id
    [where module_path = "''selfmon/vmod.010aa1''" and h = "''010aa1''"
      and base = "''selfmon/vmod.010aa1''" and s = "''7''" and outs = False
      and cfg = "\<lparr>sensor_type = ''zone_input'', zone_id = ''7'', name = ''Alarm - Zone 7'',
           device_class = ''door'', enabled = True,
           topic = ''selfmon/vmod.010aa1/prio/inputs/read/7'',
           is_prio = Some True, auto_enabled = False\<rparr>"
      and key = "''selfmon/vmod.010aa1/prio/inputs/read/7''" and entry = "''entry''"
      and ka = "''selfmon/vmod.010aa1/prio/inputs/read/7''" and ea = "''entry''"
      and kb = "''selfmon/vmod.010aa1/vrio/inputs/read/7''" and eb = "''entry''"
      and da = "\<lparr>sensor_type = ''zone_input'', zone_id = ''7'', name = ''Alarm - Zone 7'',
           device_class = ''door'', enabled = True,
           topic = ''selfmon/vmod.010aa1/prio/inputs/read/7'',
           is_prio = Some True, auto_enabled = False\<rparr>"
      and db = "\<lparr>sensor_type = ''zone_input'', zone_id = ''7'', name = ''Alarm - Zone 7'',
           device_class = ''door'', enabled = True,
           topic = ''selfmon/vmod.010aa1/vrio/inputs/read/7'',
           is_prio = Some False, auto_enabled = False\<rparr>"]
    c1 c2 h
  show ?thesis by (simp add: SelfMonZoneSensor_def)
qed

section \<open>Stored descriptors are enabled\<close>

lemma received_stores_enabled:
  assumes "discover_message_received base found t = Inr found'"
  shows "found' = found
     \<or> (\<exists>d. found' = found(t \<mapsto> d) \<and> enabled d \<and> topic d = t
          \<and> (sensor_type d = SENSOR_TYPE_ZONE_INPUT \<and> \<not> auto_enabled d
             \<or> sensor_type d = SENSOR_TYPE_OUTPUT \<and> \<not> auto_enabled d
             \<or> sensor_type d = SENSOR_TYPE_TEMPERATURE \<and> auto_enabled d
             \<or> sensor_type d = SENSOR_TYPE_VKP_LINE \<and> auto_enabled d
             \<or> sensor_type d = SENSOR_TYPE_VERSION \<and> auto_enabled d))"
  using assms
  by (auto simp: discover_message_received_def Let_def split: if_splits sum.splits)

lemma deliver_all_enabled:
  assumes "\<And>k d. found k = Some d \<Longrightarrow> enabled d"
    and "deliver_all base pats found msgs k = Some d"
  shows "enabled d"
  using assms
proof (induction msgs arbitrary: found)
  case Nil
  then show ?case by simp
next
  case (Cons m msgs)
  let ?next = "if delivered pats m
        then (case discover_message_received base found m of
                Inl err \<Rightarrow> found
              | Inr found' \<Rightarrow> found')
        else found"
  have "enabled d'" if "?next k' = Some d'" for k' d'
  proof (cases "delivered pats m")
    case False
    with that Cons.prems(1) show ?thesis by simp
  next
    case True
    show ?thesis
    proof (cases "discover_message_received base found m")
      case (Inl err)
      with True that Cons.prems(1) show ?thesis by simp
    next
      case (Inr found')
      from received_stores_enabled [OF Inr] True that Inr Cons.prems(1)
      show ?thesis by (auto split: if_splits)
    qed
  qed
  moreover from Cons.prems(2) have "deliver_all base pats ?next msgs k = Some d"
    by simp
  ultimately show ?case by (rule Cons.IH)
qed

lemma async_step_discover_result:
  assumes "async_step_discover env wake base outs msgs br = (br', Inr sensors)"
  shows "\<exists>pats. sensors = deliver_all base pats Map.empty msgs"
  using assms
  by (auto simp: async_step_discover_def split: prod.splits sum.splits sleep_outcome.splits)

text \<open>
  C10. Whatever the callback stores has \<open>enabled\<close> true: a call either leaves the
  dictionary as it is or stores, under the topic, a descriptor of one of the five types
  with \<open>enabled\<close> true, and \<open>auto_enabled\<close> false for zone inputs and outputs and true
  for the three other types. Hence every descriptor collected in a listen window, and
  every descriptor \<open>async_step_discover\<close> ends with, has \<open>enabled\<close> true.
\<close>

theorem discovered_descriptors_enabled:
  "(discover_message_received base found t = Inr found' \<longrightarrow>
      found' = found
      \<or> (\<exists>d. found' = found(t \<mapsto> d) \<and> enabled d \<and> topic d = t
           \<and> (sensor_type d = SENSOR_TYPE_ZONE_INPUT \<and> \<not> auto_enabled d
              \<or> sensor_type d = SENSOR_TYPE_OUTPUT \<and> \<not> auto_enabled d
              \<or> sensor_type d = SENSOR_TYPE_TEMPERATURE \<and> auto_enabled d
              \<or> sensor_type d = SENSOR_TYPE_VKP_LINE \<and> auto_enabled d
              \<or> sensor_type d = SENSOR_TYPE_VERSION \<and> auto_enabled d)))
   \<and> (deliver_all base pats Map.empty msgs k = Some c \<longrightarrow> enabled c)
   \<and> (async_step_discover env wake base outs msgs br = (br', Inr sensors)
      \<and> sensors k = Some c \<longrightarrow> enabled c)"
proof -
  have run: "enabled c" if "deliver_all base ps Map.empty msgs k = Some c" for ps
    using deliver_all_enabled [of Map.empty base ps msgs k c] that by simp
  have "enabled c"
    if "async_step_discover env wake base outs msgs br = (br', Inr sensors)"
      and "sensors k = Some c"
    using async_step_discover_result [OF that(1)] that(2) run by auto
  with received_stores_enabled [of base found t found'] run [of pats]
  show ?thesis by blast
qed

theorem discovered_descriptors_enabled_witness:
  "deliver_all ''selfmon/vmod.010aa1'' (topics_to_subscribe ''selfmon/vmod.010aa1'' True)
      Map.empty
      [''selfmon/vmod.010aa1/prio/inputs/read/7'', ''selfmon/vmod.010aa1/vrio/outputs/3'',
       ''selfmon/vmod.010aa1/temperature'']
      ''selfmon/vmod.010aa1/vrio/outputs/3''
    = Some \<lparr>sensor_type = ''output'', zone_id = ''3'', name = ''Alarm - Output 3'',
            device_class = ''None'', enabled = True,
            topic = ''selfmon/vmod.010aa1/vrio/outputs/3'',
            is_prio = Some False, auto_enabled = False\<rparr>
   \<and> enabled \<lparr>sensor_type = ''output'', zone_id = ''3'', name = ''Alarm - Output 3'',
            device_class = ''None'', enabled = True,
            topic = ''selfmon/vmod.010aa1/vrio/outputs/3'',
            is_prio = Some False, auto_enabled = False\<rparr>
   \<and> \<not> auto_enabled \<lparr>sensor_type = ''output'', zone_id = ''3'', name = ''Alarm - Output 3'',
            device_class = ''None'', enabled = True,
            topic = ''selfmon/vmod.010aa1/vrio/outputs/3'',
            is_prio = Some False, auto_enabled = False\<rparr>"
proof -
  have r: "deliver_all ''selfmon/vmod.010aa1'' (topics_to_subscribe ''selfmon/vmod.010aa1'' True)
      Map.empty
      [''selfmon/vmod.010aa1/prio/inputs/read/7'', ''selfmon/vmod.010aa1/vrio/outputs/3'',
       ''selfmon/vmod.010aa1/temperature'']
      ''selfmon/vmod.010aa1/vrio/outputs/3''
    = Some \<lparr>sensor_type = ''output'', zone_id = ''3'', name = ''Alarm - Output 3'',
            device_class = ''None'', enabled = True,
            topic = ''selfmon/vmod.010aa1/vrio/outputs/3'',
            is_prio = Some False, auto_enabled = False\<rparr>"
    by code_simp
  from discovered_descriptors_enabled
    [where base = "''selfmon/vmod.010aa1''"
      and pats = "topics_to_subscribe ''selfmon/vmod.010aa1'' True"
      and msgs = "[''selfmon/vmod.010aa1/prio/inputs/read/7'',
         ''selfmon/vmod.010aa1/vrio/outputs/3'', ''selfmon/vmod.010aa1/temperature'']"
      and k = "''selfmon/vmod.010aa1/vrio/outputs/3''"
      and c = "\<lparr>sensor_type = ''output'', zone_id = ''3'', name = ''Alarm - Output 3'',
            device_class = ''None'', enabled = True,
            topic = ''selfmon/vmod.010aa1/vrio/outputs/3'',
            is_prio = Some False, auto_enabled = False\<rparr>"]
    r
  have "enabled \<lparr>sensor_type = ''output'', zone_id = ''3'', name = ''Alarm - Output 3'',
            device_class = ''None'', enabled = True,
            topic = ''selfmon/vmod.010aa1/vrio/outputs/3'',
            is_prio = Some False, auto_enabled = False\<rparr>"
    by blast
  with r show ?thesis by simp
qed

section \<open>Subscriptions of a discovery session\<close>

lemma subscribe_loop_returns:
  assumes "subscribe_loop env pats br acc = (br1, Inr hs)"
  shows "\<exists>new. subscriptions br1 = subscriptions br @ new \<and> hs = acc @ map fst new
    \<and> list_all (\<lambda>(h, p). next_handle br \<le> h) new"
  using assms
proof (induction pats arbitrary: br acc)
  case Nil
  then show ?case by simp
next
  case (Cons pat pats)
  show ?case
  proof (cases "env pat")
    case Subscribed
    let ?br = "br\<lparr>subscriptions := subscriptions br @ [(next_handle br, pat)],
        next_handle := Suc (next_handle br)\<rparr>"
    from Cons.prems Subscribed
    have "subscribe_loop env pats ?br (acc @ [next_handle br]) = (br1, Inr hs)"
      by (simp add: async_subscribe_def)
    from Cons.IH [OF this] obtain new
      where n: "subscriptions br1 = subscriptions ?br @ new"
        "hs = (acc @ [next_handle br]) @ map fst new"
        "list_all (\<lambda>(h, p). next_handle ?br \<le> h) new"
      by blast
    have "list_all (\<lambda>(h, p). next_handle br \<le> h) ((next_handle br, pat) # new)"
      using n(3) by (auto simp: list_all_iff)
    with n(1,2) show ?thesis
      by (intro exI [of _ "(next_handle br, pat) # new"]) simp
  next
    case SubscribeFailed
    with Cons show ?thesis by simp
  next
    case SubscribeCancelled
    with Cons.prems show ?thesis by simp
  qed
qed

lemma subscribe_loop_not_cancelled:
  assumes "list_all (\<lambda>p. env p \<noteq> SubscribeCancelled) pats"
  shows "\<exists>br1 hs. subscribe_loop env pats br acc = (br1, Inr hs)"
  using assms
proof (induction pats arbitrary: br acc)
  case Nil
  then show ?case by simp
next
  case (Cons pat pats)
  then show ?case
    by (cases "env pat") (auto simp: async_subscribe_def)
qed

lemma fold_unsub_subscriptions:
  "subscriptions (fold unsub hs br) = filter (\<lambda>(h, p). h \<notin> set hs) (subscriptions br)"
proof (induction hs arbitrary: br)
  case Nil
  show ?case by simp
next
  case (Cons h hs)
  have "subscriptions (fold unsub (h # hs) br) =
      filter (\<lambda>(h', p). h' \<notin> set hs) (subscriptions (unsub h br))"
    by (simp add: Cons)
  also have "\<dots> = filter (\<lambda>(h', p). h' \<notin> set (h # hs)) (subscriptions br)"
    by (auto simp: unsub_def intro!: filter_cong)
  finally show ?case .
qed

lemma unsubscribe_loop_subscriptions:
  "subscriptions (unsubscribe_loop hs br) =
     filter (\<lambda>(h, p). h \<notin> set hs) (subscriptions br)"
  by (simp add: unsubscribe_loop_def fold_unsub_subscriptions)

lemma window_restores_subscriptions:
  assumes "broker_wf br" and "subscribe_loop env pats br [] = (br1, Inr hs)"
  shows "subscriptions (unsubscribe_loop hs br1) = subscriptions br"
proof -
  from subscribe_loop_returns [OF assms(2)] obtain new
    where n: "subscriptions br1 = subscriptions br @ new" "hs = map fst new"
      "list_all (\<lambda>(h, p). next_handle br \<le> h) new"
    by auto
  have old: "filter (\<lambda>(h, p). h \<notin> set hs) (subscriptions br) = subscriptions br"
  proof (rule filter_True, rule ballI)
    fix x assume "x \<in> set (subscriptions br)"
    with assms(1) have "fst x < next_handle br"
      by (auto simp: broker_wf_def list_all_iff)
    moreover have "next_handle br \<le> h" if "h \<in> set hs" for h
      using that n(2,3) by (auto simp: list_all_iff)
    ultimately have "fst x \<notin> set hs" by fastforce
    then show "case x of (h, p) \<Rightarrow> h \<notin> set hs" by (simp add: case_prod_unfold)
  qed
  have new: "filter (\<lambda>(h, p). h \<notin> set hs) new = []"
    unfolding n(2) by (force simp: filter_empty_conv)
  show ?thesis
    by (simp add: unsubscribe_loop_subscriptions n(1) old new)
qed

lemma discover_window_expiry:
  assumes "broker_wf br"
    and "list_all (\<lambda>p. env p \<noteq> SubscribeCancelled)
           (topics_to_subscribe module_path enable_outputs)"
  shows "subscriptions (fst (async_step_discover env Elapsed module_path enable_outputs msgs br))
         = subscriptions br
       \<and> \<not> isl (snd (async_step_discover env Elapsed module_path enable_outputs msgs br))"
proof -
  from assms(2) obtain br1 hs
    where l: "subscribe_loop env (topics_to_subscribe module_path enable_outputs) br []
        = (br1, Inr hs)"
    using subscribe_loop_not_cancelled by blast
  have "subscriptions (unsubscribe_loop hs br1) = subscriptions br"
    using assms(1) l by (rule window_restores_subscriptions)
  then show ?thesis
    by (simp add: async_step_discover_def l)
qed

lemma user_window_expiry:
  assumes "broker_wf br"
    and "list_all (\<lambda>p. env p \<noteq> SubscribeCancelled) subscribe_patterns"
  shows "subscriptions (fst (async_step_user env Elapsed msgs br)) = subscriptions br
       \<and> \<not> isl (snd (async_step_user env Elapsed msgs br))"
proof -
  from assms(2) obtain br1 hs
    where l: "subscribe_loop env subscribe_patterns br [] = (br1, Inr hs)"
    using subscribe_loop_not_cancelled by blast
  have "subscriptions (unsubscribe_loop hs br1) = subscriptions br"
    using assms(1) l by (rule window_restores_subscriptions)
  then show ?thesis
    by (simp add: async_step_user_def l)
qed

text \<open>
  C2, as amended. When the listen window elapses and no subscription call was
  cancelled, the step returns and the client holds exactly the subscriptions it held
  before: every subscription of the session is gone, also when some subscription
  calls had failed. This holds for \<open>async_step_discover\<close> and for \<open>async_step_user\<close>.
  On cancellation the source has no cleanup.
\<close>

theorem window_expiry_unsubscribes:
  "(broker_wf br \<and> list_all (\<lambda>p. env p \<noteq> SubscribeCancelled)
                     (topics_to_subscribe module_path enable_outputs)
    \<longrightarrow> subscriptions
          (fst (async_step_discover env Elapsed module_path enable_outputs msgs br))
          = subscriptions br
        \<and> \<not> isl (snd (async_step_discover env Elapsed module_path enable_outputs msgs br)))
   \<and> (broker_wf br \<and> list_all (\<lambda>p. env p \<noteq> SubscribeCancelled) subscribe_patterns
    \<longrightarrow> subscriptions (fst (async_step_user env Elapsed msgs br)) = subscriptions br
        \<and> \<not> isl (snd (async_step_user env Elapsed msgs br)))"
  using discover_window_expiry [of br env module_path enable_outputs msgs]
    user_window_expiry [of br env msgs]
  by blast

text \<open>
  The claim as stated fails for a session cancelled in its window: \<open>CancelledError\<close>
  leaves the step at \<open>await asyncio.sleep\<close>, before the unsubscribe loop, and the six
  (or seven) subscriptions of the session stay active.
\<close>

theorem window_cancelled_counterexample:
  "async_step_discover (\<lambda>p. Subscribed) SleepCancelled ''selfmon/vmod.010aa1'' False []
     broker_init
   = (\<lparr>subscriptions =
         [(0, ''selfmon/vmod.010aa1/prio/inputs/read/#''),
          (1, ''selfmon/vmod.010aa1/vrio/inputs/read/#''),
          (2, ''selfmon/vmod.010aa1/temperature''),
          (3, ''selfmon/vmod.010aa1/vkp/display/line1''),
          (4, ''selfmon/vmod.010aa1/vkp/display/line2''),
          (5, ''selfmon/vmod.010aa1/version'')],
        next_handle = 6\<rparr>,
      Inl CancelledError)
   \<and> async_step_user (\<lambda>p. Subscribed) SleepCancelled [] broker_init
   = (\<lparr>subscriptions =
         [(0, ''selfmon/vmod.+/temperature''),
          (1, ''selfmon/vmod.+/version''),
          (2, ''selfmon/vmod.+/heartbeat''),
          (3, ''selfmon/vmod.+/vkp/display/#''),
          (4, ''selfmon/vmod.+/prio/#''),
          (5, ''selfmon/vmod.+/vrio/#''),
          (6, ''selfmon/#'')],
        next_handle = 7\<rparr>,
      Inl CancelledError)"
  by (simp add: async_step_discover_def async_step_user_def topics_to_subscribe_def
      subscribe_patterns_def topic_defs async_subscribe_def broker_init_def)

theorem window_expiry_unsubscribes_witness:
  "broker_wf \<lparr>subscriptions = [(0, ''zigbee2mqtt/#'')], next_handle = 1\<rparr>
   \<and> list_all
       (\<lambda>p. (if p = ''selfmon/vmod.010aa1/temperature'' then SubscribeFailed else Subscribed)
            \<noteq> SubscribeCancelled)
       (topics_to_subscribe ''selfmon/vmod.010aa1'' True)
   \<and> subscriptions (fst (async_step_discover
        (\<lambda>p. if p = ''selfmon/vmod.010aa1/temperature'' then SubscribeFailed else Subscribed)
        Elapsed ''selfmon/vmod.010aa1'' True [''selfmon/vmod.010aa1/prio/inputs/read/7'']
        \<lparr>subscriptions = [(0, ''zigbee2mqtt/#'')], next_handle = 1\<rparr>))
     = [(0, ''zigbee2mqtt/#'')]
   \<and> list_all
       (\<lambda>p. (if p = ''selfmon/#'' then SubscribeFailed else Subscribed) \<noteq> SubscribeCancelled)
       subscribe_patterns
   \<and> subscriptions (fst (async_step_user
        (\<lambda>p. if p = ''selfmon/#'' then SubscribeFailed else Subscribed)
        Elapsed [''selfmon/vmod.010aa1/temperature'']
        \<lparr>subscriptions = [(0, ''zigbee2mqtt/#'')], next_handle = 1\<rparr>))
     = [(0, ''zigbee2mqtt/#'')]"
proof -
  have w: "broker_wf \<lparr>subscriptions = [(0, ''zigbee2mqtt/#'')], next_handle = 1\<rparr>"
    by (simp add: broker_wf_def)
  have d: "list_all
       (\<lambda>p. (if p = ''selfmon/vmod.010aa1/temperature'' then SubscribeFailed else Subscribed)
            \<noteq> SubscribeCancelled)
       (topics_to_subscribe ''selfmon/vmod.010aa1'' True)"
    by (simp add: list_all_iff)
  have u: "list_all
       (\<lambda>p. (if p = ''selfmon/#'' then SubscribeFailed else Subscribed) \<noteq> SubscribeCancelled)
       subscribe_patterns"
    by (simp add: list_all_iff)
  from window_expiry_unsubscribes
    [where br = "\<lparr>subscriptions = [(0, ''zigbee2mqtt/#'')], next_handle = 1\<rparr>"
      and env = "\<lambda>p. if p = ''selfmon/vmod.010aa1/temperature''
                     then SubscribeFailed else Subscribed"
      and module_path = "''selfmon/vmod.010aa1''" and enable_outputs = True
      and msgs = "[''selfmon/vmod.010aa1/prio/inputs/read/7'']"]
    window_expiry_unsubscribes
    [where br = "\<lparr>subscriptions = [(0, ''zigbee2mqtt/#'')], next_handle = 1\<rparr>"
      and env = "\<lambda>p. if p = ''selfmon/#'' then SubscribeFailed else Subscribed"
      and module_path = "''selfmon/vmod.010aa1''" and enable_outputs = True
      and msgs = "[''selfmon/vmod.010aa1/temperature'']"]
    w d u
  show ?thesis by simp
qed

text \<open>
  What a window collects when every subscription call succeeds: the messages run
  through the callback behind the filters of \<open>topics_to_subscribe\<close>, and for a single
  message the entry under its topic is the descriptor \<open>classify\<close> gives.
\<close>

lemma subscribe_loop_all_subscribed:
  assumes "list_all (\<lambda>p. env p = Subscribed) pats"
    and "subscribe_loop env pats br acc = (br1, Inr hs)"
  shows "\<exists>new. subscriptions br1 = subscriptions br @ new \<and> hs = acc @ map fst new
    \<and> map snd new = pats \<and> list_all (\<lambda>(h, p). next_handle br \<le> h) new"
  using assms
proof (induction pats arbitrary: br acc)
  case Nil
  then show ?case by simp
next
  case (Cons pat pats)
  let ?br = "br\<lparr>subscriptions := subscriptions br @ [(next_handle br, pat)],
      next_handle := Suc (next_handle br)\<rparr>"
  from Cons.prems
  have "subscribe_loop env pats ?br (acc @ [next_handle br]) = (br1, Inr hs)"
    and "list_all (\<lambda>p. env p = Subscribed) pats"
    by (simp_all add: async_subscribe_def)
  from Cons.IH [OF this(2,1)] obtain new
    where n: "subscriptions br1 = subscriptions ?br @ new"
      "hs = (acc @ [next_handle br]) @ map fst new"
      "map snd new = pats"
      "list_all (\<lambda>(h, p). next_handle ?br \<le> h) new"
    by blast
  have "list_all (\<lambda>(h, p). next_handle br \<le> h) ((next_handle br, pat) # new)"
    using n(4) by (auto simp: list_all_iff)
  with n(1,2,3) show ?case
    by (intro exI [of _ "(next_handle br, pat) # new"]) simp
qed

lemma session_patterns:
  assumes "broker_wf br" and "list_all (\<lambda>p. env p = Subscribed) pats"
    and "subscribe_loop env pats br [] = (br1, Inr hs)"
  shows "patterns_of br1 hs = pats"
proof -
  from subscribe_loop_all_subscribed [OF assms(2,3)] obtain new
    where n: "subscriptions br1 = subscriptions br @ new" "hs = map fst new"
      "map snd new = pats" "list_all (\<lambda>(h, p). next_handle br \<le> h) new"
    by auto
  have old: "filter (\<lambda>(h, p). h \<in> set hs) (subscriptions br) = []"
  proof -
    have "fst x \<notin> set hs" if "x \<in> set (subscriptions br)" for x
    proof -
      from that assms(1) have "fst x < next_handle br"
        by (auto simp: broker_wf_def list_all_iff)
      moreover have "next_handle br \<le> h" if "h \<in> set hs" for h
        using that n(2,4) by (auto simp: list_all_iff)
      ultimately show ?thesis by fastforce
    qed
    then show ?thesis by (auto simp: filter_empty_conv)
  qed
  have new: "filter (\<lambda>(h, p). h \<in> set hs) new = new"
    unfolding n(2) by (rule filter_True) force
  show ?thesis
    by (simp add: patterns_of_def n(1) old new n(3))
qed

lemma discover_window_collects:
  assumes "broker_wf br"
    and "list_all (\<lambda>p. env p = Subscribed) (topics_to_subscribe module_path enable_outputs)"
  shows "snd (async_step_discover env Elapsed module_path enable_outputs msgs br)
     = Inr (deliver_all module_path (topics_to_subscribe module_path enable_outputs)
              Map.empty msgs)"
proof -
  from assms(2)
  have "list_all (\<lambda>p. env p \<noteq> SubscribeCancelled)
      (topics_to_subscribe module_path enable_outputs)"
    by (auto simp: list_all_iff)
  then obtain br1 hs
    where l: "subscribe_loop env (topics_to_subscribe module_path enable_outputs) br []
        = (br1, Inr hs)"
    using subscribe_loop_not_cancelled by blast
  from session_patterns [OF assms l] show ?thesis
    by (simp add: async_step_discover_def l)
qed

lemma one_message_is_classify:
  "deliver_all module_base (topics_to_subscribe module_base outs) Map.empty [full_topic]
     full_topic
   = (case classify module_base full_topic outs of Inl err \<Rightarrow> None | Inr r \<Rightarrow> r)"
  by (simp add: classify_def split: sum.split)

section \<open>The zone sensor's payload decoder\<close>

lemma zone_open: "zone_message_received e PAYLOAD_OPEN =
    e\<lparr>attr_is_on := Some True, ha_states := ha_states e @ [Some True]\<rparr>"
  by (simp add: zone_message_received_def async_write_ha_state_def)

lemma zone_closed: "zone_message_received e PAYLOAD_CLOSED =
    e\<lparr>attr_is_on := Some False, ha_states := ha_states e @ [Some False]\<rparr>"
  by (simp add: zone_message_received_def async_write_ha_state_def PAYLOAD_OPEN_def
      PAYLOAD_CLOSED_def)

lemma zone_other:
  assumes "payload \<noteq> PAYLOAD_OPEN" and "payload \<noteq> PAYLOAD_CLOSED"
  shows "zone_message_received e payload = e\<lparr>warnings := warnings e @ [payload]\<rparr>"
  using assms by (simp add: zone_message_received_def)

text \<open>
  C6. The payload \<open>OPEN\<close> sets the state to on and \<open>CLOSED\<close> sets it to off, each
  publishing the new state; any other payload leaves the state as it was, publishes
  nothing and logs one warning. From any entity, the payloads \<open>OPEN\<close>, \<open>CLOSED\<close>,
  \<open>garbage\<close> give the states on, off, off, with two published states and one warning.
\<close>

theorem zone_payload_decoder:
  "attr_is_on (zone_message_received e ''OPEN'') = Some True
   \<and> ha_states (zone_message_received e ''OPEN'') = ha_states e @ [Some True]
   \<and> warnings (zone_message_received e ''OPEN'') = warnings e
   \<and> attr_is_on (zone_message_received e ''CLOSED'') = Some False
   \<and> ha_states (zone_message_received e ''CLOSED'') = ha_states e @ [Some False]
   \<and> warnings (zone_message_received e ''CLOSED'') = warnings e
   \<and> (payload \<noteq> ''OPEN'' \<and> payload \<noteq> ''CLOSED'' \<longrightarrow>
        attr_is_on (zone_message_received e payload) = attr_is_on e
        \<and> ha_states (zone_message_received e payload) = ha_states e
        \<and> warnings (zone_message_received e payload) = warnings e @ [payload])
   \<and> map attr_is_on (zone_states e [''OPEN'', ''CLOSED'', ''garbage''])
        = [Some True, Some False, Some False]
   \<and> ha_states (last (zone_states e [''OPEN'', ''CLOSED'', ''garbage'']))
        = ha_states e @ [Some True, Some False]
   \<and> warnings (last (zone_states e [''OPEN'', ''CLOSED'', ''garbage'']))
        = warnings e @ [''garbage'']"
proof -
  have o: "''OPEN'' = PAYLOAD_OPEN" and c: "''CLOSED'' = PAYLOAD_CLOSED"
    by (simp_all add: PAYLOAD_OPEN_def PAYLOAD_CLOSED_def)
  have g: "''garbage'' \<noteq> PAYLOAD_OPEN" "''garbage'' \<noteq> PAYLOAD_CLOSED"
    by (simp_all add: PAYLOAD_OPEN_def PAYLOAD_CLOSED_def)
  have other: "payload \<noteq> ''OPEN'' \<and> payload \<noteq> ''CLOSED'' \<longrightarrow>
        attr_is_on (zone_message_received e payload) = attr_is_on e
        \<and> ha_states (zone_message_received e payload) = ha_states e
        \<and> warnings (zone_message_received e payload) = warnings e @ [payload]"
    unfolding o c by (simp add: zone_other)
  have run: "zone_states e [''OPEN'', ''CLOSED'', ''garbage''] =
      [e\<lparr>attr_is_on := Some True, ha_states := ha_states e @ [Some True]\<rparr>,
       e\<lparr>attr_is_on := Some False, ha_states := ha_states e @ [Some True, Some False]\<rparr>,
       e\<lparr>attr_is_on := Some False, ha_states := ha_states e @ [Some True, Some False],
         warnings := warnings e @ [''garbage'']\<rparr>]"
    unfolding o c by (simp add: zone_open zone_closed zone_other [OF g])
  show ?thesis
    unfolding run using other unfolding o c by (simp add: zone_open zone_closed)
qed

theorem zone_payload_decoder_witness:
  "''garbage'' \<noteq> ''OPEN'' \<and> ''garbage'' \<noteq> ''CLOSED''
   \<and> attr_is_on (zone_message_received
        \<lparr>sensor_topic = ''selfmon/vmod.010aa1/prio/inputs/read/7'',
         attr_unique_id = ''selfmon_010aa1_zone_7'', attr_name = ''Alarm - Zone 7'',
         attr_device_class = Some ''door'', attr_is_on = Some False,
         ha_states = [Some True, Some False], warnings = []\<rparr> ''garbage'') = Some False
   \<and> ha_states (zone_message_received
        \<lparr>sensor_topic = ''selfmon/vmod.010aa1/prio/inputs/read/7'',
         attr_unique_id = ''selfmon_010aa1_zone_7'', attr_name = ''Alarm - Zone 7'',
         attr_device_class = Some ''door'', attr_is_on = Some False,
         ha_states = [Some True, Some False], warnings = []\<rparr> ''garbage'')
       = [Some True, Some False]
   \<and> warnings (zone_message_received
        \<lparr>sensor_topic = ''selfmon/vmod.010aa1/prio/inputs/read/7'',
         attr_unique_id = ''selfmon_010aa1_zone_7'', attr_name = ''Alarm - Zone 7'',
         attr_device_class = Some ''door'', attr_is_on = Some False,
         ha_states = [Some True, Some False], warnings = []\<rparr> ''garbage'') = [''garbage'']"
  using zone_payload_decoder
    [of "\<lparr>sensor_topic = ''selfmon/vmod.010aa1/prio/inputs/read/7'',
         attr_unique_id = ''selfmon_010aa1_zone_7'', attr_name = ''Alarm - Zone 7'',
         attr_device_class = Some ''door'', attr_is_on = Some False,
         ha_states = [Some True, Some False], warnings = []\<rparr>" "''garbage''"]
  by simp

section \<open>The temperature sensor's payload decoder\<close>





section \<open>The default device class\<close>

lemma device_class_not_digit:
  "\<not> isdigit s \<Longrightarrow> get_default_device_class s t = Inr ''None''"
  by (simp add: get_default_device_class_def)

lemma digit_value_range:
  "isdecimal_char c \<Longrightarrow> 0 \<le> digit_value c \<and> digit_value c \<le> 9"
  by (auto simp: isdecimal_char_def digit_value_def)

lemma decimal_last_digit:
  assumes "s \<noteq> []" and "list_all isdecimal_char s"
  shows "foldl (\<lambda>acc c. 10 * acc + digit_value c) 0 s mod 10 = digit_value (last s)"
proof -
  from assms(1) have s: "s = butlast s @ [last s]" by simp
  from assms have "isdecimal_char (last s)"
    by (simp add: list_all_iff)
  then have r: "0 \<le> digit_value (last s) \<and> digit_value (last s) \<le> 9"
    by (rule digit_value_range)
  have "foldl (\<lambda>acc c. 10 * acc + digit_value c) 0 s =
      10 * foldl (\<lambda>acc c. 10 * acc + digit_value c) 0 (butlast s) + digit_value (last s)"
    by (subst s) simp
  with r show ?thesis by simp
qed

lemma device_class_decimal:
  assumes "s \<noteq> []" and "list_all isdecimal_char s"
  shows "get_default_device_class s t =
     Inr (if digit_value (last s) \<in> {1, 7} then ''door''
          else if digit_value (last s) \<in> {2, 8} then ''motion''
          else if digit_value (last s) \<in> {4, 6} then ''smoke''
          else if digit_value (last s) \<in> {3, 5} then ''safety''
          else ''None'')"
proof -
  have "isdigit s" using assms
    by (auto simp: isdigit_def isdigit_char_def list_all_iff)
  then show ?thesis
    using assms decimal_last_digit [OF assms]
    by (simp add: get_default_device_class_def py_int_def Let_def)
qed

text \<open>
  C4. The code departs from the claim on a zone id made of superscript digits: for
  the superscript two (the character 0xB2), \<open>isdigit()\<close> holds and \<open>int()\<close> raises
  \<open>ValueError\<close>, so the heuristic returns no device class and the discovery callback
  stores no descriptor. On every other zone id the claim holds: by
  \<open>device_class_decimal\<close> a string of decimal digits gets the class of its last digit
  (so of the number modulo 10), and by \<open>device_class_not_digit\<close> a string that fails
  \<open>isdigit()\<close> gets the class of 0.
\<close>

theorem device_class_superscript_digit:
  "isdigit [CHR 0xB2]
   \<and> get_default_device_class [CHR 0xB2] (''selfmon/vmod.010aa1/prio/inputs/read/'' @ [CHR 0xB2])
       = Inl ValueError
   \<and> classify ''selfmon/vmod.010aa1'' (''selfmon/vmod.010aa1/prio/inputs/read/'' @ [CHR 0xB2])
        False = Inl ValueError"
  by code_simp

section \<open>Manual entry of the module path: what is accepted\<close>

lemma is_hex_not_newline: "\<not> is_hex_char (CHR 0x0A)"
  by (simp add: is_hex_char_def)

lemma re_match_module_path_iff:
  "re_match_module_path s \<longleftrightarrow>
     (\<exists>h. h \<noteq> [] \<and> list_all is_hex_char h
          \<and> (s = ''selfmon/vmod.'' @ h \<or> s = ''selfmon/vmod.'' @ h @ [CHR 0x0A]))"
proof
  assume m: "re_match_module_path s"
  then obtain rest where rest: "s = ''selfmon/vmod.'' @ rest"
    by (auto simp: re_match_module_path_def startswith_def prefix_def)
  let ?h = "takeWhile is_hex_char rest"
  from m rest have h: "?h \<noteq> []"
    and t: "dropWhile is_hex_char rest = [] \<or> dropWhile is_hex_char rest = [CHR 0x0A]"
    by (simp_all add: re_match_module_path_def Let_def)
  have id: "?h @ dropWhile is_hex_char rest = rest"
    by (rule takeWhile_dropWhile_id)
  from t have "rest = ?h \<or> rest = ?h @ [CHR 0x0A]"
  proof
    assume "dropWhile is_hex_char rest = []"
    with id show ?thesis by (metis append_Nil2)
  next
    assume "dropWhile is_hex_char rest = [CHR 0x0A]"
    with id show ?thesis by metis
  qed
  moreover have "list_all is_hex_char ?h"
    by (auto simp: list_all_iff dest: set_takeWhileD)
  ultimately show "\<exists>h. h \<noteq> [] \<and> list_all is_hex_char h
          \<and> (s = ''selfmon/vmod.'' @ h \<or> s = ''selfmon/vmod.'' @ h @ [CHR 0x0A])"
    using h rest by (intro exI [of _ ?h]) auto
next
  assume "\<exists>h. h \<noteq> [] \<and> list_all is_hex_char h
          \<and> (s = ''selfmon/vmod.'' @ h \<or> s = ''selfmon/vmod.'' @ h @ [CHR 0x0A])"
  then obtain h where h: "h \<noteq> []" "list_all is_hex_char h"
    and s: "s = ''selfmon/vmod.'' @ h \<or> s = ''selfmon/vmod.'' @ h @ [CHR 0x0A]"
    by blast
  have a: "takeWhile is_hex_char h = h" "dropWhile is_hex_char h = []"
    using h(2) by (simp_all add: list_all_iff)
  have b: "takeWhile is_hex_char (h @ [CHR 0x0A]) = h"
    "dropWhile is_hex_char (h @ [CHR 0x0A]) = [CHR 0x0A]"
    using h(2) is_hex_not_newline
    by (simp_all add: list_all_iff)
  from s show "re_match_module_path s"
  proof
    assume "s = ''selfmon/vmod.'' @ h"
    then show ?thesis
      using h by (simp add: re_match_module_path_def startswith_def a list_all_iff)
  next
    assume "s = ''selfmon/vmod.'' @ h @ [CHR 0x0A]"
    then show ?thesis
      using h by (simp add: re_match_module_path_def startswith_def b list_all_iff)
  qed
qed

lemma manual_entry_outcomes:
  "async_step_manual_entry configured self_module_path (Some entered) =
     (if \<not> re_match_module_path (py_rstrip ''/'' (py_strip entered))
      then (self_module_path, ShowForm ''manual_entry'' [(''base'', ''invalid_path'')])
      else if py_rstrip ''/'' (py_strip entered) \<in> configured
      then (self_module_path, AbortFlow ''already_configured'')
      else (py_rstrip ''/'' (py_strip entered), ShowForm ''output_config'' []))"
  by (simp add: async_step_manual_entry_def Let_def)

text \<open>
  Every module path the flow can hold comes from one of the two regular expressions
  and so has no \<open>+\<close> in it.
\<close>

lemma hex_not_plus: "\<not> is_hex_char CHR ''+''"
  by (simp add: is_hex_char_def)

lemma accepted_path_no_wildcard:
  assumes "re_match_module_path s"
  shows "CHR ''+'' \<notin> set s"
proof -
  from assms obtain h where h: "list_all is_hex_char h"
    and s: "s = ''selfmon/vmod.'' @ h \<or> s = ''selfmon/vmod.'' @ h @ [CHR 0x0A]"
    unfolding re_match_module_path_iff by blast
  from h have "CHR ''+'' \<notin> set h"
    using hex_not_plus by (auto simp: list_all_iff)
  with s show ?thesis by auto
qed

lemma discovered_module_no_wildcard:
  assumes "match_module t = Some m"
  shows "CHR ''+'' \<notin> set m"
proof -
  from assms obtain r where m: "m = ''selfmon/vmod.'' @ takeWhile is_hex_char r"
    by (auto simp: match_module_def Let_def split: if_splits)
  have "CHR ''+'' \<notin> set (takeWhile is_hex_char r)"
    using hex_not_plus by (auto dest: set_takeWhileD)
  with m show ?thesis by simp
qed

text \<open>
  C8. The code departs from the claim on a line feed at the end of the trimmed text:
  from the input \<open>selfmon/vmod.010aa1\<close>, line feed, \<open>/\<close> the trimming removes the
  slash only, \<open>$\<close> matches before the final line feed, and the flow goes on with a
  module path that ends in a line feed. This is the only departure: by
  \<open>re_match_module_path_iff\<close> and \<open>manual_entry_outcomes\<close> the text is accepted exactly
  when, trimmed, it is \<open>selfmon/vmod.\<close> and one or more hexadecimal digits, with or
  without one final line feed, and it is refused with the error \<open>invalid_path\<close> on the
  form \<open>manual_entry\<close> otherwise.
\<close>

theorem manual_entry_trailing_newline:
  "async_step_manual_entry {} [] (Some (''selfmon/vmod.010aa1'' @ [CHR 0x0A] @ ''/''))
     = (''selfmon/vmod.010aa1'' @ [CHR 0x0A], ShowForm ''output_config'' [])"
  by code_simp

end
